theory Spec2Isabelle
  imports Main "HOL-Library.Sublist"
begin

section \<open>Data model (store/models/product.py and the request schemas)\<close>

text \<open>
  A \<open>DateTime\<close> value is a number of microseconds since the epoch, the resolution of
  Python's \<open>datetime\<close>. A price is a \<open>Numeric(10, 2)\<close>: a fixed-point decimal with two
  fractional digits, held as its number of hundredths. The values that Python hands
  over are not bounded; the columns are: \<open>in_range\<close> and \<open>bind\<close> below say what
  the database makes of a quantity beyond \<open>Integer\<close> and of a price of more than ten
  digits.
\<close>

type_synonym datetime = int

type_synonym numeric_10_2 = int

text \<open>
  Modelled from the spec: the request schema \<open>ProductIn\<close> (store/schemas/product.py is not
  among the sources). Section 6 of the spec gives the create fields: name, quantity,
  price, status.
\<close>

record ProductIn =
  name :: string
  quantity :: int
  price :: numeric_10_2
  status :: bool

text \<open>
  The ORM class \<open>Product\<close>: the four caller-supplied columns and the three columns that
  are filled by column defaults when the row is inserted. The column \<open>id\<close> is written
  \<open>id'\<close>, since \<open>id\<close> is the identity function of HOL.
\<close>

record Product = ProductIn +
  id' :: string
  created_at :: datetime
  updated_at :: datetime

text \<open>
  Modelled from the spec: the response schemas \<open>ProductOut\<close> and \<open>ProductUpdateOut\<close>
  (store/schemas/product.py is not among the sources). Section 6 of the spec lists the
  fields of the representation: id, name, quantity, price, status, created_at,
  updated_at, which are the columns of a row, so \<open>from_orm\<close> copies the row.
\<close>

type_synonym ProductOut = Product

definition from_orm :: "Product \<Rightarrow> ProductOut" where
  "from_orm p = p"

text \<open>
  Modelled from the spec: the request schema \<open>ProductUpdate\<close> (store/schemas/product.py is
  not among the sources): any subset of the updatable fields, each one present or absent.
  \<open>dict_exclude_unset\<close> is \<open>body.dict(exclude_unset=True).items()\<close>: the key/value pairs
  of the fields the caller has set, in the order of the fields.
\<close>

record ProductUpdate =
  name' :: "string option"
  quantity' :: "int option"
  price' :: "numeric_10_2 option"
  status' :: "bool option"

datatype item = Name string | Quantity int | Price numeric_10_2 | Status bool

definition dict_exclude_unset :: "ProductUpdate \<Rightarrow> item list" where
  "dict_exclude_unset body =
     (case name' body of None \<Rightarrow> [] | Some v \<Rightarrow> [Name v]) @
     (case quantity' body of None \<Rightarrow> [] | Some v \<Rightarrow> [Quantity v]) @
     (case price' body of None \<Rightarrow> [] | Some v \<Rightarrow> [Price v]) @
     (case status' body of None \<Rightarrow> [] | Some v \<Rightarrow> [Status v])"

fun setattr :: "Product \<Rightarrow> item \<Rightarrow> Product" where
  "setattr p (Name v) = p\<lparr>name := v\<rparr>"
| "setattr p (Quantity v) = p\<lparr>quantity := v\<rparr>"
| "setattr p (Price v) = p\<lparr>price := v\<rparr>"
| "setattr p (Status v) = p\<lparr>status := v\<rparr>"

section \<open>Exceptions\<close>

text \<open>
  Modelled from the spec: the exception \<open>NotFoundException\<close> (store/core/exceptions.py is
  not among the sources). Section 4.3 of the spec answers it with the message from the
  error, and the usecase builds it from one string, so it carries that string as its
  \<open>message\<close>.

  \<open>IntegrityError\<close> is SQLAlchemy's and carries the text of \<open>exc.orig\<close>, the driver's
  description of the violated constraint; \<open>AttributeError\<close> is Python's own;
  \<open>InvalidRequestError\<close> is what \<open>session.refresh\<close> raises for an object whose row is
  gone. \<open>DriverError\<close> stands for every error of the database driver that is not an
  \<open>IntegrityError\<close>: a value out of the range of its column (\<open>OverflowError\<close> from the
  SQLite driver, \<open>DataError\<close> from PostgreSQL), a parameter of a type that the driver
  cannot bind to the column. No \<open>except\<close> clause of the program catches it.
\<close>

datatype fault = OutOfRange | UnsupportedType

datatype error =
  NotFoundException string
| IntegrityError string
| AttributeError string
| InvalidRequestError string
| DriverError fault

section \<open>What an operation reads from outside the program\<close>

text \<open>
  \<open>urandom\<close> is the integer of the sixteen bytes that \<open>uuid.uuid4()\<close> draws from
  \<open>os.urandom\<close>; \<open>utcnow1\<close> and \<open>utcnow2\<close> are the first and the second reading of
  \<open>datetime.utcnow\<close> that the operation takes (the wall clock: nothing in the program
  makes two readings equal, or ordered); \<open>like_escape\<close> is the escape character of the
  database's \<open>LIKE\<close> when the statement names none (a backslash for PostgreSQL and
  MySQL, none for SQLite); \<open>orig\<close> is the driver's wording for the constraints that a
  statement violates (which one it names when both are violated is the database's
  choice); \<open>out_of_range\<close> is what the database makes of a value outside the range
  that every database gives the column: it raises (\<open>None\<close>) or stores some value.
\<close>

datatype constraint = products_pkey | products_name_key

datatype column = Column_quantity | Column_price

record env =
  urandom :: nat
  utcnow1 :: datetime
  utcnow2 :: datetime
  like_escape :: "char option"
  orig :: "constraint list \<Rightarrow> string"
  out_of_range :: "column \<Rightarrow> int \<Rightarrow> int option"

text \<open>
  \<open>uuid.uuid4()\<close> is \<open>UUID(bytes=os.urandom(16), version=4)\<close>: the constructor sets the
  two variant bits (63 and 62) to \<open>10\<close> and the four version bits (79 to 76) to 4.
\<close>

definition version4 :: "nat \<Rightarrow> nat" where
  "version4 r =
     (let n = r mod 2 ^ 128;
          v = n - ((n div 2 ^ 62) mod 4) * 2 ^ 62 + 2 * 2 ^ 62
      in v - ((v div 2 ^ 76) mod 16) * 2 ^ 76 + 4 * 2 ^ 76)"

definition uuid4 :: "env \<Rightarrow> nat" where
  "uuid4 e = version4 (urandom e)"

text \<open>
  \<open>str(uuid.uuid4())\<close>: the integer as 32 lower-case hexadecimal digits (\<open>'%032x'\<close>),
  grouped 8-4-4-4-12.
\<close>

definition hexdigit :: "nat \<Rightarrow> char" where
  "hexdigit d = ''0123456789abcdef'' ! (d mod 16)"

fun hex :: "nat \<Rightarrow> nat \<Rightarrow> string" where
  "hex 0 n = []"
| "hex (Suc w) n = hex w (n div 16) @ [hexdigit n]"

definition str_uuid :: "nat \<Rightarrow> string" where
  "str_uuid n =
     (let h = hex 32 (n mod 2 ^ 128)
      in take 8 h @ ''-'' @ take 4 (drop 8 h) @ ''-'' @ take 4 (drop 12 h) @ ''-'' @
         take 4 (drop 16 h) @ ''-'' @ drop 20 h)"

section \<open>The database: \<open>ILIKE\<close>\<close>

text \<open>
  \<open>like esc pattern s\<close> is SQL's \<open>s LIKE pattern\<close>: \<open>%\<close> stands for any run of
  characters, \<open>_\<close> for any one character, the escape character makes the character after
  it literal, any other character stands for itself. A pattern that ends in the escape
  character matches nothing (no pattern of \<open>query\<close> does: each ends in \<open>%\<close>).
  \<open>ilike\<close> compares the lower-cased column with the lower-cased pattern, letters
  \<open>A\<close> to \<open>Z\<close> being the ones that have a lower case.
\<close>

fun like :: "char option \<Rightarrow> string \<Rightarrow> string \<Rightarrow> bool" where
  "like esc [] s = (s = [])"
| "like esc (c # p) s =
     (if Some c = esc then
        (case p of
           [] \<Rightarrow> False
         | d # p' \<Rightarrow> (case s of [] \<Rightarrow> False | x # s' \<Rightarrow> x = d \<and> like esc p' s'))
      else if c = CHR ''%'' then
        (like esc p s \<or> (case s of [] \<Rightarrow> False | x # s' \<Rightarrow> like esc (c # p) s'))
      else if c = CHR ''_'' then
        (case s of [] \<Rightarrow> False | x # s' \<Rightarrow> like esc p s')
      else
        (case s of [] \<Rightarrow> False | x # s' \<Rightarrow> x = c \<and> like esc p s'))"

definition lower :: "char \<Rightarrow> char" where
  "lower c =
     (case map_of (zip ''ABCDEFGHIJKLMNOPQRSTUVWXYZ'' ''abcdefghijklmnopqrstuvwxyz'') c of
        None \<Rightarrow> c
      | Some l \<Rightarrow> l)"

definition ilike :: "char option \<Rightarrow> string \<Rightarrow> string \<Rightarrow> bool" where
  "ilike esc col pattern = like esc (map lower pattern) (map lower col)"

section \<open>The database: the range of the columns\<close>

text \<open>
  \<open>Column(Integer)\<close> takes 32 bits on every database (SQLite takes 64), and
  \<open>Numeric(10, 2)\<close> takes ten digits, two of them after the point. \<open>bind\<close> is what
  the database stores for a value sent to a column: the value itself within that range,
  and beyond it what the database at hand makes of it.
\<close>

fun in_range :: "column \<Rightarrow> int \<Rightarrow> bool" where
  "in_range Column_quantity v = (- (2 ^ 31) \<le> v \<and> v < 2 ^ 31)"
| "in_range Column_price v = (- (10 ^ 10) < v \<and> v < 10 ^ 10)"

definition bind :: "env \<Rightarrow> column \<Rightarrow> int \<Rightarrow> int option" where
  "bind e c v = (if in_range c v then Some v else out_of_range e c v)"

section \<open>The database: the table and the session\<close>

text \<open>
  The table \<open>products\<close> is the list of its rows, in the order of insertion. A session
  holds the changes that the next flush will write: an object added, a loaded object
  with its attributes as loaded and as they are now, an object marked for deletion.
\<close>

datatype change = Insert ProductIn | Update Product Product | Delete Product

record session =
  table :: "Product list"
  pending :: "change list"

definition session_get :: "session \<Rightarrow> string \<Rightarrow> Product option" where
  "session_get s i = find (\<lambda>p. id' p = i) (table s)"

definition add :: "ProductIn \<Rightarrow> session \<Rightarrow> session" where
  "add b s = s\<lparr>pending := pending s @ [Insert b]\<rparr>"

definition modified :: "Product \<Rightarrow> Product \<Rightarrow> session \<Rightarrow> session" where
  "modified loaded current s = s\<lparr>pending := pending s @ [Update loaded current]\<rparr>"

definition session_delete :: "Product \<Rightarrow> session \<Rightarrow> session" where
  "session_delete p s = s\<lparr>pending := pending s @ [Delete p]\<rparr>"

text \<open>
  One statement of a flush.
  \<^item> \<open>INSERT\<close>: the column defaults fill \<open>id\<close>, \<open>created_at\<close> and \<open>updated_at\<close>, in the
    order of the columns, each default called on its own; the quantity and the price
    are bound to their columns, which raises when one is refused; then the primary key
    and the \<open>unique\<close> constraint of \<open>name\<close> are checked.
  \<^item> \<open>UPDATE\<close>: only the attributes whose value differs from the loaded one are set, and
    no statement is sent when none differs; a quantity and a price that are set are
    bound to their columns; \<open>onupdate\<close> supplies \<open>updated_at\<close> when the statement does
    not set it; a changed \<open>name\<close> is checked against the other rows.
  \<^item> \<open>DELETE\<close>: the rows with the primary key go.
\<close>

definition insert_row :: "env \<Rightarrow> ProductIn \<Rightarrow> int \<Rightarrow> int \<Rightarrow> Product" where
  "insert_row e b q pr =
     \<lparr>name = name b, quantity = q, price = pr, status = status b,
      id' = str_uuid (uuid4 e), created_at = utcnow1 e, updated_at = utcnow2 e\<rparr>"

definition violated :: "Product list \<Rightarrow> Product \<Rightarrow> constraint list" where
  "violated t row =
     (if id' row \<in> set (map id' t) then [products_pkey] else []) @
     (if name row \<in> set (map name t) then [products_name_key] else [])"

definition bind_changed :: "env \<Rightarrow> column \<Rightarrow> int \<Rightarrow> int \<Rightarrow> int option" where
  "bind_changed e c loaded current =
     (if current = loaded then Some current else bind e c current)"

definition unchanged :: "Product \<Rightarrow> Product \<Rightarrow> bool" where
  "unchanged loaded current =
     (name current = name loaded \<and> quantity current = quantity loaded \<and>
      price current = price loaded \<and> status current = status loaded \<and>
      updated_at current = updated_at loaded)"

definition update_row :: "env \<Rightarrow> Product \<Rightarrow> Product \<Rightarrow> int \<Rightarrow> int \<Rightarrow> Product" where
  "update_row e loaded current q pr =
     (if updated_at current = updated_at loaded
      then current\<lparr>quantity := q, price := pr, updated_at := utcnow2 e\<rparr>
      else current\<lparr>quantity := q, price := pr\<rparr>)"

fun flush1 :: "env \<Rightarrow> Product list \<Rightarrow> change \<Rightarrow> error + Product list" where
  "flush1 e t (Insert b) =
     (case bind e Column_quantity (quantity b) of
        None \<Rightarrow> Inl (DriverError OutOfRange)
      | Some q \<Rightarrow>
          (case bind e Column_price (price b) of
             None \<Rightarrow> Inl (DriverError OutOfRange)
           | Some pr \<Rightarrow>
               (let row = insert_row e b q pr
                in if violated t row = [] then Inr (t @ [row])
                   else Inl (IntegrityError (orig e (violated t row))))))"
| "flush1 e t (Update loaded current) =
     (if unchanged loaded current then Inr t
      else
        (case bind_changed e Column_quantity (quantity loaded) (quantity current) of
           None \<Rightarrow> Inl (DriverError OutOfRange)
         | Some q \<Rightarrow>
             (case bind_changed e Column_price (price loaded) (price current) of
                None \<Rightarrow> Inl (DriverError OutOfRange)
              | Some pr \<Rightarrow>
                  if name current \<noteq> name loaded \<and>
                     name current \<in> set (map name (filter (\<lambda>r. id' r \<noteq> id' loaded) t))
                  then Inl (IntegrityError (orig e [products_name_key]))
                  else Inr (map (\<lambda>r. if id' r = id' loaded
                                       then update_row e loaded current q pr else r) t))))"
| "flush1 e t (Delete p) = Inr (filter (\<lambda>r. id' r \<noteq> id' p) t)"

fun flush :: "env \<Rightarrow> Product list \<Rightarrow> change list \<Rightarrow> error + Product list" where
  "flush e t [] = Inr t"
| "flush e t (c # cs) =
     (case flush1 e t c of Inl err \<Rightarrow> Inl err | Inr t' \<Rightarrow> flush e t' cs)"

text \<open>
  \<open>commit\<close> flushes and, when every statement went through, makes the result the table.
  When a statement fails the database transaction is undone, so the table is as it was,
  and the exception leaves the session with its changes; \<open>rollback\<close> drops them.
  \<open>refresh\<close> reads the row of an object again.
\<close>

definition commit :: "env \<Rightarrow> session \<Rightarrow> error + session" where
  "commit e s =
     (case flush e (table s) (pending s) of
        Inl err \<Rightarrow> Inl err
      | Inr t \<Rightarrow> Inr \<lparr>table = t, pending = []\<rparr>)"

definition rollback :: "session \<Rightarrow> session" where
  "rollback s = s\<lparr>pending := []\<rparr>"

definition refresh :: "session \<Rightarrow> string \<Rightarrow> error + Product" where
  "refresh s i =
     (case session_get s i of
        None \<Rightarrow> Inl (InvalidRequestError ''Could not refresh instance'')
      | Some p \<Rightarrow> Inr p)"

section \<open>The usecase (store/usecases/product.py)\<close>

text \<open>
  Each operation takes the session and returns what it returns or raises, with the
  session as it leaves it. \<open>except IntegrityError\<close> catches that exception only.
\<close>

definition not_found :: "string \<Rightarrow> string" where
  "not_found i = ''Produto com id '' @ i @ '' n'' @ [CHR 0xE3] @ ''o encontrado''"

definition create :: "env \<Rightarrow> session \<Rightarrow> ProductIn \<Rightarrow> (error + ProductOut) \<times> session" where
  "create e s body =
     (let s1 = add body s
      in case commit e s1 of
           Inr s2 \<Rightarrow>
             (case refresh s2 (str_uuid (uuid4 e)) of
                Inr product \<Rightarrow> (Inr (from_orm product), s2)
              | Inl err \<Rightarrow> (Inl err, s2))
         | Inl (IntegrityError m) \<Rightarrow> (Inl (IntegrityError m), rollback s1)
         | Inl err \<Rightarrow> (Inl err, s1))"

definition get :: "session \<Rightarrow> string \<Rightarrow> error + ProductOut" where
  "get s i =
     (case session_get s i of
        None \<Rightarrow> Inl (NotFoundException (not_found i))
      | Some result \<Rightarrow> Inr (from_orm result))"

text \<open>
  \<open>query\<close>. \<open>if name:\<close> and \<open>if category:\<close> are Python's truth test of an optional
  string: \<open>None\<close> and the empty string are false. The class \<open>Product\<close> has no attribute
  \<open>category\<close>, so evaluating \<open>Product.category\<close> raises \<open>AttributeError\<close>, before any
  statement is executed.
\<close>

definition Product_category :: "error + (Product \<Rightarrow> string)" where
  "Product_category = Inl (AttributeError
            (''type object 'Product' has no attribute 'category'' @ [CHR 0x27]))"

fun truthy :: "string option \<Rightarrow> bool" where
  "truthy None = False"
| "truthy (Some v) = (v \<noteq> [])"

fun where_name :: "env \<Rightarrow> string option \<Rightarrow> (Product \<Rightarrow> bool) list" where
  "where_name e None = []"
| "where_name e (Some n) =
     (if truthy (Some n) then [\<lambda>p. ilike (like_escape e) (name p) (''%'' @ n @ ''%'')] else [])"

fun where_category :: "env \<Rightarrow> string option \<Rightarrow> error + (Product \<Rightarrow> bool) list" where
  "where_category e None = Inr []"
| "where_category e (Some c) =
     (if truthy (Some c) then
        (case Product_category of
           Inl err \<Rightarrow> Inl err
         | Inr col \<Rightarrow> Inr [\<lambda>p. ilike (like_escape e) (col p) (''%'' @ c @ ''%'')])
      else Inr [])"

text \<open>
  \<open>execute\<close> runs a \<open>SELECT\<close> with the conditions collected so far. SQL leaves the
  order of the rows open; here it is the order of the table.
\<close>

definition execute :: "session \<Rightarrow> (Product \<Rightarrow> bool) list \<Rightarrow> Product list" where
  "execute s stmt = filter (\<lambda>p. list_all (\<lambda>w. w p) stmt) (table s)"

definition query :: "env \<Rightarrow> session \<Rightarrow> string option \<Rightarrow> string option \<Rightarrow> error + ProductOut list" where
  "query e s nm category =
     (let stmt = where_name e nm
      in case where_category e category of
           Inl err \<Rightarrow> Inl err
         | Inr w \<Rightarrow> Inr (map from_orm (execute s (stmt @ w))))"

definition update :: "env \<Rightarrow> session \<Rightarrow> string \<Rightarrow> ProductUpdate \<Rightarrow> (error + ProductOut) \<times> session" where
  "update e s i body =
     (case session_get s i of
        None \<Rightarrow> (Inl (NotFoundException (not_found i)), s)
      | Some product \<Rightarrow>
          (let p1 = foldl setattr product (dict_exclude_unset body);
               p2 = p1\<lparr>updated_at := utcnow1 e\<rparr>;
               s1 = modified product p2 s
           in case commit e s1 of
                Inr s2 \<Rightarrow>
                  (case refresh s2 (id' p2) of
                     Inr p \<Rightarrow> (Inr (from_orm p), s2)
                   | Inl err \<Rightarrow> (Inl err, s2))
              | Inl (IntegrityError m) \<Rightarrow> (Inl (IntegrityError m), rollback s1)
              | Inl err \<Rightarrow> (Inl err, s1)))"

definition delete :: "env \<Rightarrow> session \<Rightarrow> string \<Rightarrow> (error + unit) \<times> session" where
  "delete e s i =
     (case session_get s i of
        None \<Rightarrow> (Inl (NotFoundException (not_found i)), s)
      | Some product \<Rightarrow>
          (let s1 = session_delete product s
           in case commit e s1 of
                Inr s2 \<Rightarrow> (Inr (), s2)
              | Inl err \<Rightarrow> (Inl err, s1)))"

section \<open>The routes (store/controllers/product.py)\<close>



datatype content = Item ProductOut | Items "ProductOut list" | Detail string | Empty

record response =
  status_code :: nat
  body :: content




definition query_route :: "env \<Rightarrow> session \<Rightarrow> string option \<Rightarrow> string option \<Rightarrow> error + response" where
  "query_route e s nm category =
     (case query e s nm category of
        Inr outs \<Rightarrow> Inr \<lparr>status_code = 200, body = Items outs\<rparr>
      | Inl err \<Rightarrow> Inl err)"



section \<open>Sequences of operations\<close>

text \<open>
  A state of the store is what a sequence of \<open>create\<close>, \<open>update\<close> and \<open>delete\<close> calls,
  each with what it reads from outside, makes of the empty table.

  Modelled from the spec: the code that gives \<open>ProductUsecase\<close> its session is not among
  the sources. By section 9 of the spec a session is scoped to a single request: each
  call has a session of its own on the one database, and the session is closed when the
  call is over, which drops the changes that a call ended by an exception has left in
  it.
\<close>

definition close :: "session \<Rightarrow> session" where
  "close s = s\<lparr>pending := []\<rparr>"

datatype call = Call_create ProductIn | Call_update string ProductUpdate | Call_delete string

fun step :: "session \<Rightarrow> env \<times> call \<Rightarrow> session" where
  "step s (e, Call_create b) = close (snd (create e s b))"
| "step s (e, Call_update i b) = close (snd (update e s i b))"
| "step s (e, Call_delete i) = close (snd (delete e s i))"

definition init :: session where
  "init = \<lparr>table = [], pending = []\<rparr>"

definition run :: "(env \<times> call) list \<Rightarrow> session" where
  "run calls = foldl step init calls"

text \<open>The readings of the clock never decrease along a sequence of calls, from \<open>t\<close> on.\<close>

fun clock_ordered :: "datetime \<Rightarrow> (env \<times> call) list \<Rightarrow> bool" where
  "clock_ordered t [] = True"
| "clock_ordered t ((e, c) # calls) =
     (t \<le> utcnow1 e \<and> utcnow1 e \<le> utcnow2 e \<and> clock_ordered (utcnow2 e) calls)"

section \<open>Notions used in the properties\<close>

text \<open>
  \<open>patched p b\<close> is the row \<open>p\<close> with exactly the fields that the update \<open>b\<close> holds
  replaced, and every other column as it was.
\<close>

definition patched :: "Product \<Rightarrow> ProductUpdate \<Rightarrow> Product" where
  "patched p b =
     \<lparr>name = (case name' b of None \<Rightarrow> name p | Some v \<Rightarrow> v),
      quantity = (case quantity' b of None \<Rightarrow> quantity p | Some v \<Rightarrow> v),
      price = (case price' b of None \<Rightarrow> price p | Some v \<Rightarrow> v),
      status = (case status' b of None \<Rightarrow> status p | Some v \<Rightarrow> v),
      id' = id' p, created_at = created_at p, updated_at = updated_at p\<rparr>"

text \<open>
  Modelled from the spec: the schema \<open>ProductIn\<close> (store/schemas/product.py) is not among
  the sources. A valid create input is one with the attributes of the data model of the
  spec (section 3): a name that is not empty, a quantity and a price that are not
  negative (the two fractional digits of the price are what the hundredths hold).
\<close>

definition valid_in :: "ProductIn \<Rightarrow> bool" where
  "valid_in b = (name b \<noteq> [] \<and> 0 \<le> quantity b \<and> 0 \<le> price b)"

text \<open>
  \<open>fits b\<close>: the quantity and the price of the create input \<open>b\<close> are within the range
  of their columns; \<open>update_fits b\<close>: so are those that the update \<open>b\<close> holds.
\<close>

definition fits :: "ProductIn \<Rightarrow> bool" where
  "fits b = (in_range Column_quantity (quantity b) \<and> in_range Column_price (price b))"

definition update_fits :: "ProductUpdate \<Rightarrow> bool" where
  "update_fits b =
     ((case quantity' b of None \<Rightarrow> True | Some v \<Rightarrow> in_range Column_quantity v) \<and>
      (case price' b of None \<Rightarrow> True | Some v \<Rightarrow> in_range Column_price v))"

text \<open>
  \<open>stamp e p b\<close> is the \<open>updated_at\<close> that the update \<open>b\<close> of the row \<open>p\<close> stores: the
  first reading of the clock, which the usecase assigns; when that reading is the value
  the row has already, the attribute has not changed and \<open>onupdate\<close> reads the clock
  again, provided that another attribute has changed and there is a statement at all.
\<close>

definition same_fields :: "Product \<Rightarrow> Product \<Rightarrow> bool" where
  "same_fields p q =
     (name q = name p \<and> quantity q = quantity p \<and> price q = price p \<and> status q = status p)"

definition stamp :: "env \<Rightarrow> Product \<Rightarrow> ProductUpdate \<Rightarrow> datetime" where
  "stamp e p b =
     (if utcnow1 e = updated_at p \<and> \<not> same_fields p (patched p b) then utcnow2 e
      else utcnow1 e)"

text \<open>
  \<open>name_taken t i b\<close>: the update \<open>b\<close> of the row with id \<open>i\<close> sets a name that another
  row of the table \<open>t\<close> has.
\<close>

definition name_taken :: "Product list \<Rightarrow> string \<Rightarrow> ProductUpdate \<Rightarrow> bool" where
  "name_taken t i b =
     (case name' b of
        None \<Rightarrow> False
      | Some n \<Rightarrow> n \<in> set (map name (filter (\<lambda>r. id' r \<noteq> i) t)))"

text \<open>
  \<open>consistent s\<close>: the session has nothing left to flush, and the table keeps its
  primary key and the \<open>unique\<close> constraint of \<open>name\<close>. \<open>timed t s\<close>: no row was updated
  before it was created, or after the time \<open>t\<close>.
\<close>

definition consistent :: "session \<Rightarrow> bool" where
  "consistent s =
     (pending s = [] \<and> distinct (map id' (table s)) \<and> distinct (map name (table s)))"

definition timed :: "datetime \<Rightarrow> session \<Rightarrow> bool" where
  "timed t s = list_all (\<lambda>p. created_at p \<le> updated_at p \<and> updated_at p \<le> t) (table s)"



text \<open>
  Concrete inputs: the product of the spec's end-to-end scenario, a second one, and an
  order of \<open>2 ^ 63\<close> widgets, a quantity that no database takes in an \<open>Integer\<close>
  column; an operation's surroundings with given random bytes and two readings of the
  clock, on a database whose \<open>LIKE\<close> has no escape character, which words a violated
  constraint as SQLite does (naming the column \<open>name\<close> when both constraints are
  violated) and refuses every value out of the range of its column.
\<close>

definition widget :: ProductIn where
  "widget = \<lparr>name = ''Widget'', quantity = 10, price = 999, status = True\<rparr>"

definition gadget :: ProductIn where
  "gadget = \<lparr>name = ''Gadget'', quantity = 1, price = 250, status = False\<rparr>"

definition big_order :: ProductIn where
  "big_order = \<lparr>name = ''Widget'', quantity = 2 ^ 63, price = 999, status = True\<rparr>"

definition sqlite_orig :: "constraint list \<Rightarrow> string" where
  "sqlite_orig cs =
     (if products_name_key \<in> set cs then ''UNIQUE constraint failed: products.name''
      else ''UNIQUE constraint failed: products.id'')"

definition env_of :: "nat \<Rightarrow> datetime \<Rightarrow> datetime \<Rightarrow> env" where
  "env_of u t1 t2 =
     \<lparr>urandom = u, utcnow1 = t1, utcnow2 = t2, like_escape = None, orig = sqlite_orig,
      out_of_range = (\<lambda>c v. None)\<rparr>"

definition only_quantity :: "int \<Rightarrow> ProductUpdate" where
  "only_quantity q = \<lparr>name' = None, quantity' = Some q, price' = None, status' = None\<rparr>"

definition only_name :: "string \<Rightarrow> ProductUpdate" where
  "only_name n = \<lparr>name' = Some n, quantity' = None, price' = None, status' = None\<rparr>"

definition two_products :: session where
  "two_products =
     run [(env_of 1 100 101, Call_create widget), (env_of 2 110 111, Call_create gadget)]"

definition one_widget :: session where
  "one_widget = run [(env_of 1 100 101, Call_create widget)]"

section \<open>Identifiers, lookups and the simple cases of the operations\<close>

lemma hex_numeral: "hex (numeral k) n = hex (pred_numeral k) (n div 16) @ [hexdigit n]"
  by (simp only: numeral_eq_Suc [of k] hex.simps)

lemma length_hex: "length (hex w n) = w"
  by (induction w arbitrary: n) simp_all

lemma length_str_uuid: "length (str_uuid n) = 36"
  by (simp add: str_uuid_def Let_def length_hex)

lemma str_uuid_nonempty: "str_uuid n \<noteq> []"
  using length_str_uuid [of n] by auto

lemma version4_1: "version4 1 = 0x40008000000000000001"
  by (simp add: version4_def Let_def)

lemma version4_2: "version4 2 = 0x40008000000000000002"
  by (simp add: version4_def Let_def)

lemma id_1: "str_uuid (version4 1) = ''00000000-0000-4000-8000-000000000001''"
  unfolding version4_1 by (simp add: str_uuid_def hexdigit_def Let_def hex_numeral)

lemma id_Suc_0: "str_uuid (version4 (Suc 0)) = ''00000000-0000-4000-8000-000000000001''"
  using id_1 by simp

lemma id_2: "str_uuid (version4 2) = ''00000000-0000-4000-8000-000000000002''"
  unfolding version4_2 by (simp add: str_uuid_def hexdigit_def Let_def hex_numeral)

lemma session_get_None: "session_get s i = None \<longleftrightarrow> i \<notin> id' ` set (table s)"
  by (auto simp: session_get_def find_None_iff)

lemma session_get_Some: "session_get s i = Some p \<Longrightarrow> p \<in> set (table s) \<and> id' p = i"
  by (auto simp: session_get_def find_Some_iff)

lemma map_from_orm: "map from_orm t = t"
  by (induction t) (simp_all add: from_orm_def)

lemma find_append:
  "find P (xs @ ys) = (case find P xs of None \<Rightarrow> find P ys | Some x \<Rightarrow> Some x)"
  by (induction xs) simp_all

lemma session_eq:
  "pending s = [] \<Longrightarrow> s\<lparr>pending := []\<rparr> = s"
  "pending s = [] \<Longrightarrow> \<lparr>table = table s, pending = []\<rparr> = s"
  by (cases s; simp)+

lemma bind_in_range: "in_range c v \<Longrightarrow> bind e c v = Some v"
  by (simp add: bind_def)

lemma bind_changed_in_range: "in_range c v \<Longrightarrow> bind_changed e c l v = Some v"
  by (simp add: bind_changed_def bind_def)

lemma bind_changed_same: "bind_changed e c v v = Some v"
  by (simp add: bind_changed_def)

lemma violated_Nil:
  "violated t row = [] \<longleftrightarrow> id' row \<notin> id' ` set t \<and> name row \<notin> name ` set t"
  by (simp add: violated_def)

lemma insert_row_simps:
  "id' (insert_row e b q pr) = str_uuid (uuid4 e)" "name (insert_row e b q pr) = name b"
  "quantity (insert_row e b q pr) = q" "price (insert_row e b q pr) = pr"
  "status (insert_row e b q pr) = status b"
  "created_at (insert_row e b q pr) = utcnow1 e" "updated_at (insert_row e b q pr) = utcnow2 e"
  by (simp_all add: insert_row_def)

text \<open>What \<open>create\<close> does on a session with nothing left to flush, case by case.\<close>

lemma create_eq:
  assumes "pending s = []"
  shows "create e s b =
     (case bind e Column_quantity (quantity b) of
        None \<Rightarrow> (Inl (DriverError OutOfRange), add b s)
      | Some q \<Rightarrow>
          (case bind e Column_price (price b) of
             None \<Rightarrow> (Inl (DriverError OutOfRange), add b s)
           | Some pr \<Rightarrow>
               if violated (table s) (insert_row e b q pr) = []
               then (Inr (insert_row e b q pr),
                     \<lparr>table = table s @ [insert_row e b q pr], pending = []\<rparr>)
               else (Inl (IntegrityError (orig e (violated (table s) (insert_row e b q pr)))),
                     s)))"
proof (cases "bind e Column_quantity (quantity b)")
  case None
  then show ?thesis using assms by (simp add: create_def add_def commit_def Let_def)
next
  case q: (Some q)
  show ?thesis
  proof (cases "bind e Column_price (price b)")
    case None
    then show ?thesis using assms q by (simp add: create_def add_def commit_def Let_def)
  next
    case pr: (Some pr)
    let ?row = "insert_row e b q pr"
    show ?thesis
    proof (cases "violated (table s) ?row = []")
      case True
      then have "str_uuid (uuid4 e) \<notin> id' ` set (table s)"
        by (simp add: violated_Nil insert_row_simps)
      then have g: "find (\<lambda>p. id' p = str_uuid (uuid4 e)) (table s) = None"
        by (force simp: find_None_iff)
      show ?thesis
        using assms q pr True g
        by (simp add: create_def add_def commit_def Let_def refresh_def session_get_def
            find_append from_orm_def insert_row_simps)
    next
      case False
      then show ?thesis
        using assms q pr session_eq(1) [OF assms]
        by (simp add: create_def add_def commit_def Let_def rollback_def)
    qed
  qed
qed

lemma create_ok:
  assumes "pending s = []" and "fits b"
    and "name b \<notin> name ` set (table s)"
    and "str_uuid (uuid4 e) \<notin> id' ` set (table s)"
  shows "create e s b =
           (Inr (insert_row e b (quantity b) (price b)),
            \<lparr>table = table s @ [insert_row e b (quantity b) (price b)], pending = []\<rparr>)"
  using assms(2-4)
  by (simp add: create_eq [OF assms(1)] fits_def bind_in_range violated_Nil insert_row_simps)

lemma create_conflict:
  assumes "pending s = []" and "fits b"
    and "name b \<in> name ` set (table s) \<or> str_uuid (uuid4 e) \<in> id' ` set (table s)"
  shows "create e s b =
           (Inl (IntegrityError
                  (orig e (violated (table s) (insert_row e b (quantity b) (price b))))), s)"
  using assms(2,3)
  by (auto simp: create_eq [OF assms(1)] fits_def bind_in_range violated_Nil insert_row_simps)

lemma create_out_of_range:
  assumes "pending s = []"
    and "bind e Column_quantity (quantity b) = None \<or> bind e Column_price (price b) = None"
  shows "create e s b = (Inl (DriverError OutOfRange), add b s)"
  using assms(2) by (auto simp: create_eq [OF assms(1)] split: option.splits)

lemma get_missing:
  "i \<notin> id' ` set (table s) \<Longrightarrow> get s i = Inl (NotFoundException (not_found i))"
  by (simp add: get_def session_get_None [symmetric])

lemma update_missing:
  "i \<notin> id' ` set (table s) \<Longrightarrow> update e s i b = (Inl (NotFoundException (not_found i)), s)"
  by (simp add: update_def session_get_None [symmetric])

lemma delete_missing:
  "i \<notin> id' ` set (table s) \<Longrightarrow> delete e s i = (Inl (NotFoundException (not_found i)), s)"
  by (simp add: delete_def session_get_None [symmetric])

lemma delete_ok:
  assumes "pending s = []" and "i \<in> id' ` set (table s)"
  shows "delete e s i = (Inr (), \<lparr>table = filter (\<lambda>r. id' r \<noteq> i) (table s), pending = []\<rparr>)"
proof -
  obtain p where p: "session_get s i = Some p"
    using assms(2) session_get_None [of s i] by (cases "session_get s i") auto
  then have "id' p = i" by (simp add: session_get_Some)
  then show ?thesis
    using p assms(1) by (simp add: delete_def session_delete_def commit_def Let_def)
qed

section \<open>Two concrete stores\<close>

lemma one_widget_eq:
  "one_widget =
     \<lparr>table = [\<lparr>name = ''Widget'', quantity = 10, price = 999, status = True,
                 id' = ''00000000-0000-4000-8000-000000000001'',
                 created_at = 100, updated_at = 101\<rparr>],
      pending = []\<rparr>"
  by (simp add: one_widget_def run_def init_def close_def create_ok fits_def insert_row_def
      env_of_def uuid4_def widget_def id_Suc_0)

lemma two_products_eq:
  "two_products =
     \<lparr>table = [\<lparr>name = ''Widget'', quantity = 10, price = 999, status = True,
                 id' = ''00000000-0000-4000-8000-000000000001'',
                 created_at = 100, updated_at = 101\<rparr>,
               \<lparr>name = ''Gadget'', quantity = 1, price = 250, status = False,
                 id' = ''00000000-0000-4000-8000-000000000002'',
                 created_at = 110, updated_at = 111\<rparr>],
      pending = []\<rparr>"
  by (simp add: two_products_def run_def init_def close_def create_ok fits_def insert_row_def
      env_of_def uuid4_def widget_def gadget_def id_Suc_0 id_2)

section \<open>The update\<close>

lemma foldl_setattr: "foldl setattr p (dict_exclude_unset b) = patched p b"
  by (cases "name' b"; cases "quantity' b"; cases "price' b"; cases "status' b")
     (simp_all add: dict_exclude_unset_def patched_def)

lemma find_replace:
  "find (\<lambda>r. id' r = i) t = Some p \<Longrightarrow> id' q = i \<Longrightarrow>
   find (\<lambda>r. id' r = i) (map (\<lambda>r. if id' r = i then q else r) t) = Some q"
  by (induction t) (auto split: if_splits)

lemma patched_simps:
  "id' (patched p b) = id' p" "created_at (patched p b) = created_at p"
  "updated_at (patched p b) = updated_at p"
  "name (patched p b) = (case name' b of None \<Rightarrow> name p | Some v \<Rightarrow> v)"
  "quantity (patched p b) = (case quantity' b of None \<Rightarrow> quantity p | Some v \<Rightarrow> v)"
  "price (patched p b) = (case price' b of None \<Rightarrow> price p | Some v \<Rightarrow> v)"
  "status (patched p b) = (case status' b of None \<Rightarrow> status p | Some v \<Rightarrow> v)"
  by (simp_all add: patched_def)

lemma update_row_simps:
  "id' (update_row e l c q pr) = id' c" "created_at (update_row e l c q pr) = created_at c"
  "name (update_row e l c q pr) = name c" "status (update_row e l c q pr) = status c"
  "quantity (update_row e l c q pr) = q" "price (update_row e l c q pr) = pr"
  "updated_at (update_row e l c q pr) =
     (if updated_at c = updated_at l then utcnow2 e else updated_at c)"
  by (simp_all add: update_row_def)

text \<open>What \<open>update\<close> does to a stored row on a session with nothing left to flush.\<close>

lemma update_eq:
  assumes "pending s = []" and "session_get s i = Some p"
  shows "update e s i b =
     (let c = (patched p b)\<lparr>updated_at := utcnow1 e\<rparr>
      in if unchanged p c then (Inr p, s)
         else
           (case bind_changed e Column_quantity (quantity p) (quantity c) of
              None \<Rightarrow> (Inl (DriverError OutOfRange), modified p c s)
            | Some q \<Rightarrow>
                (case bind_changed e Column_price (price p) (price c) of
                   None \<Rightarrow> (Inl (DriverError OutOfRange), modified p c s)
                 | Some pr \<Rightarrow>
                     if name c \<noteq> name p \<and>
                        name c \<in> set (map name (filter (\<lambda>r. id' r \<noteq> i) (table s)))
                     then (Inl (IntegrityError (orig e [products_name_key])), s)
                     else (Inr (update_row e p c q pr),
                           \<lparr>table = map (\<lambda>r. if id' r = i then update_row e p c q pr else r)
                                      (table s),
                            pending = []\<rparr>))))"
proof -
  let ?c = "(patched p b)\<lparr>updated_at := utcnow1 e\<rparr>"
  have ip: "id' p = i" using assms(2) by (simp add: session_get_Some)
  have g: "find (\<lambda>r. id' r = i) (table s) = Some p"
    using assms(2) by (simp add: session_get_def)
  show ?thesis
  proof (cases "unchanged p ?c")
    case True
    have "commit e (modified p ?c s) = Inr \<lparr>table = table s, pending = []\<rparr>"
      using assms(1) True by (simp add: commit_def modified_def)
    then have c: "commit e (modified p ?c s) = Inr s"
      by (simp only: session_eq(2) [OF assms(1)])
    have r: "refresh s (id' ?c) = Inr p"
      using assms(2) ip by (simp add: refresh_def patched_simps)
    show ?thesis
      using True c r assms(2)
      by (simp add: update_def foldl_setattr Let_def from_orm_def)
  next
    case u: False
    show ?thesis
    proof (cases "bind_changed e Column_quantity (quantity p) (quantity ?c)")
      case None
      then show ?thesis
        using assms u
        by (simp add: update_def foldl_setattr modified_def commit_def Let_def)
    next
      case q: (Some q)
      show ?thesis
      proof (cases "bind_changed e Column_price (price p) (price ?c)")
        case None
        then show ?thesis
          using assms u q
          by (simp add: update_def foldl_setattr modified_def commit_def Let_def)
      next
        case pr: (Some pr)
        let ?r = "update_row e p ?c q pr"
        show ?thesis
        proof (cases "name ?c \<noteq> name p \<and>
                 name ?c \<in> set (map name (filter (\<lambda>r. id' r \<noteq> i) (table s)))")
          case True
          then have "flush1 e (table s) (Update p ?c) =
                       Inl (IntegrityError (orig e [products_name_key]))"
            using u q pr ip by (simp del: set_map set_filter)
          then show ?thesis
            using assms u q pr True session_eq(1) [OF assms(1)]
            by (simp add: update_def foldl_setattr modified_def commit_def Let_def
                rollback_def del: set_map set_filter)
        next
          case False
          then have f: "flush1 e (table s) (Update p ?c) =
                       Inr (map (\<lambda>r. if id' r = i then ?r else r) (table s))"
            using u q pr ip by (simp del: set_map set_filter)
          have "find (\<lambda>r. id' r = i) (map (\<lambda>r. if id' r = i then ?r else r) (table s)) =
                  Some ?r"
            using g ip by (intro find_replace) (simp_all add: update_row_simps patched_simps)
          then show ?thesis
            using assms u q pr False f ip
            by (simp add: update_def foldl_setattr modified_def commit_def Let_def
                refresh_def session_get_def from_orm_def patched_simps
                del: set_map set_filter flush1.simps)
        qed
      qed
    qed
  qed
qed

lemma keep_row:
  assumes "distinct (map id' t)" and "p \<in> set t"
  shows "map (\<lambda>r. if id' r = id' p then p else r) t = t"
proof -
  have u: "r \<in> set t \<Longrightarrow> id' r = id' p \<Longrightarrow> r = p" for r
    using assms by (meson distinct_map inj_onD)
  show ?thesis
  proof (rule map_idI)
    fix r assume "r \<in> set t"
    then show "(if id' r = id' p then p else r) = r" using u [of r] by auto
  qed
qed

lemma update_ok:
  assumes "consistent s"
    and "session_get s i = Some p"
    and "\<not> name_taken (table s) i b"
    and "update_fits b"
  shows "update e s i b =
           (Inr ((patched p b)\<lparr>updated_at := stamp e p b\<rparr>),
            \<lparr>table = map (\<lambda>r. if id' r = i then (patched p b)\<lparr>updated_at := stamp e p b\<rparr> else r)
                       (table s),
             pending = []\<rparr>)"
proof -
  let ?c = "(patched p b)\<lparr>updated_at := utcnow1 e\<rparr>"
  let ?q = "(patched p b)\<lparr>updated_at := stamp e p b\<rparr>"
  have pe: "pending s = []" and di: "distinct (map id' (table s))"
    using assms(1) by (simp_all add: consistent_def)
  have ip: "id' p = i" and pt: "p \<in> set (table s)"
    using assms(2) by (simp_all add: session_get_Some)
  have n: "\<not> (name ?c \<noteq> name p \<and>
               name ?c \<in> set (map name (filter (\<lambda>r. id' r \<noteq> i) (table s))))"
    using assms(3) by (auto simp: name_taken_def patched_simps split: option.splits)
  have bq: "bind_changed e Column_quantity (quantity p) (quantity ?c) = Some (quantity ?c)"
    using assms(4)
    by (cases "quantity' b")
       (simp_all add: update_fits_def patched_simps bind_changed_same bind_changed_in_range)
  have bp: "bind_changed e Column_price (price p) (price ?c) = Some (price ?c)"
    using assms(4)
    by (cases "price' b")
       (simp_all add: update_fits_def patched_simps bind_changed_same bind_changed_in_range)
  show ?thesis
  proof (cases "unchanged p ?c")
    case True
    then have s: "same_fields p (patched p b)" and t: "utcnow1 e = updated_at p"
      by (simp_all add: unchanged_def same_fields_def)
    have qp: "?q = p"
      using s t by (simp add: stamp_def same_fields_def patched_def)
    have m: "map (\<lambda>r. if id' r = i then p else r) (table s) = table s"
      using keep_row [OF di pt] ip by simp
    have "update e s i b = (Inr p, s)"
      using True by (simp add: update_eq [OF pe assms(2)] Let_def)
    also have "\<dots> = (Inr p, \<lparr>table = table s, pending = []\<rparr>)"
      by (simp only: session_eq(2) [OF pe])
    also have "\<dots> = (Inr ?q, \<lparr>table = map (\<lambda>r. if id' r = i then ?q else r) (table s),
                                pending = []\<rparr>)"
      by (simp only: qp m)
    finally show ?thesis .
  next
    case False
    have "update_row e p ?c (quantity ?c) (price ?c) = ?q"
      using False by (auto simp: update_row_def stamp_def unchanged_def same_fields_def)
    then show ?thesis
      using False n bq bp
      by (simp add: update_eq [OF pe assms(2)] Let_def del: set_map set_filter)
  qed
qed

lemma update_conflict:
  assumes "pending s = []"
    and "session_get s i = Some p"
    and "name' b = Some n" and "n \<noteq> name p"
    and "n \<in> set (map name (filter (\<lambda>r. id' r \<noteq> i) (table s)))"
    and "update_fits b"
  shows "update e s i b = (Inl (IntegrityError (orig e [products_name_key])), s)"
proof -
  let ?c = "(patched p b)\<lparr>updated_at := utcnow1 e\<rparr>"
  have n: "name ?c = n" using assms(3) by (simp add: patched_simps)
  have u: "\<not> unchanged p ?c" using assms(4) n by (simp add: unchanged_def)
  have bq: "bind_changed e Column_quantity (quantity p) (quantity ?c) = Some (quantity ?c)"
    using assms(6)
    by (cases "quantity' b")
       (simp_all add: update_fits_def patched_simps bind_changed_same bind_changed_in_range)
  have bp: "bind_changed e Column_price (price p) (price ?c) = Some (price ?c)"
    using assms(6)
    by (cases "price' b")
       (simp_all add: update_fits_def patched_simps bind_changed_same bind_changed_in_range)
  show ?thesis
    using u n bq bp assms(4,5)
    by (simp add: update_eq [OF assms(1,2)] Let_def del: set_map set_filter)
qed

lemma update_out_of_range:
  assumes "pending s = []"
    and "session_get s i = Some p"
    and "quantity' b = Some v" and "v \<noteq> quantity p" and "bind e Column_quantity v = None"
  shows "update e s i b =
           (Inl (DriverError OutOfRange),
            modified p ((patched p b)\<lparr>updated_at := utcnow1 e\<rparr>) s)"
proof -
  let ?c = "(patched p b)\<lparr>updated_at := utcnow1 e\<rparr>"
  have q: "quantity ?c = v" using assms(3) by (simp add: patched_simps)
  have u: "\<not> unchanged p ?c" using assms(4) q by (simp add: unchanged_def)
  have "bind_changed e Column_quantity (quantity p) (quantity ?c) = None"
    using assms(4,5) q by (simp add: bind_changed_def)
  then show ?thesis
    using u by (simp add: update_eq [OF assms(1,2)] Let_def)
qed

section \<open>What each operation leaves in the table\<close>

lemma table_close: "table (close s) = table s" "pending (close s) = []"
  by (simp_all add: close_def)

lemma create_cases:
  assumes "pending s = []"
  shows "(\<exists>q pr. create e s b =
            (Inr (insert_row e b q pr),
             \<lparr>table = table s @ [insert_row e b q pr], pending = []\<rparr>) \<and>
          name b \<notin> name ` set (table s) \<and> str_uuid (uuid4 e) \<notin> id' ` set (table s))
       \<or> table (snd (create e s b)) = table s"
  by (auto simp: create_eq [OF assms] violated_Nil insert_row_simps add_def
      split: option.splits)

lemma update_cases:
  assumes "pending s = []" and "session_get s i = Some p"
  shows "table (snd (update e s i b)) = table s
       \<or> (\<exists>q. table (snd (update e s i b)) =
                 map (\<lambda>r. if id' r = i then q else r) (table s) \<and>
               id' q = i \<and> created_at q = created_at p \<and>
               (updated_at q = utcnow1 e \<or> updated_at q = utcnow2 e) \<and>
               (name q = name p \<or>
                name q \<notin> set (map name (filter (\<lambda>r. id' r \<noteq> i) (table s)))))"
proof -
  let ?c = "(patched p b)\<lparr>updated_at := utcnow1 e\<rparr>"
  have ip: "id' p = i" using assms(2) by (simp add: session_get_Some)
  have r: "id' (update_row e p ?c q pr) = i \<and>
           created_at (update_row e p ?c q pr) = created_at p \<and>
           (updated_at (update_row e p ?c q pr) = utcnow1 e \<or>
            updated_at (update_row e p ?c q pr) = utcnow2 e) \<and>
           name (update_row e p ?c q pr) = name ?c" for q pr
    using ip by (simp add: update_row_simps patched_simps)
  show ?thesis
  proof (cases "unchanged p ?c")
    case True
    then show ?thesis by (simp add: update_eq [OF assms] Let_def)
  next
    case u: False
    show ?thesis
    proof (cases "bind_changed e Column_quantity (quantity p) (quantity ?c)")
      case None
      then show ?thesis using u by (simp add: update_eq [OF assms] Let_def modified_def)
    next
      case q: (Some q)
      show ?thesis
      proof (cases "bind_changed e Column_price (price p) (price ?c)")
        case None
        then show ?thesis using u q by (simp add: update_eq [OF assms] Let_def modified_def)
      next
        case pr: (Some pr)
        show ?thesis
        proof (cases "name ?c \<noteq> name p \<and>
                 name ?c \<in> set (map name (filter (\<lambda>r. id' r \<noteq> i) (table s)))")
          case True
          then show ?thesis
            using u q pr by (simp add: update_eq [OF assms] Let_def del: set_map set_filter)
        next
          case False
          then have "table (snd (update e s i b)) =
                  map (\<lambda>r. if id' r = i then update_row e p ?c q pr else r) (table s)"
            using u q pr by (auto simp: update_eq [OF assms] Let_def simp del: set_map set_filter)
          moreover have "name (update_row e p ?c q pr) = name p \<or>
              name (update_row e p ?c q pr) \<notin>
                set (map name (filter (\<lambda>r. id' r \<noteq> i) (table s)))"
            using False r [of q pr] by (auto simp del: set_map set_filter)
          ultimately show ?thesis using r [of q pr] by blast
        qed
      qed
    qed
  qed
qed

lemma delete_table:
  assumes "pending s = []"
  shows "snd (delete e s i) = s\<lparr>table := filter (\<lambda>r. id' r \<noteq> i) (table s)\<rparr>"
proof (cases "i \<in> id' ` set (table s)")
  case True
  then show ?thesis using delete_ok [OF assms True, of e] assms by simp
next
  case False
  then have "filter (\<lambda>r. id' r \<noteq> i) (table s) = table s"
    by (auto simp: filter_id_conv)
  then show ?thesis using delete_missing [OF False, of e] by simp
qed

section \<open>The constraints hold along every sequence of calls\<close>

lemma replace_row:
  assumes "distinct (map id' t)" and "p \<in> set t" and "id' p = i"
  shows "\<exists>xs ys. t = xs @ p # ys \<and> (\<forall>r \<in> set xs \<union> set ys. id' r \<noteq> i) \<and>
           map (\<lambda>r. if id' r = i then q else r) t = xs @ q # ys \<and>
           filter (\<lambda>r. id' r \<noteq> i) t = xs @ ys"
proof -
  obtain xs ys where t: "t = xs @ p # ys" using assms(2) by (auto dest: split_list)
  have "i \<notin> id' ` set xs" "i \<notin> id' ` set ys"
    using assms(1,3) unfolding t by auto
  then have n: "\<forall>r \<in> set xs \<union> set ys. id' r \<noteq> i"
    by blast
  have "map (\<lambda>r. if id' r = i then q else r) xs = xs" "map (\<lambda>r. if id' r = i then q else r) ys = ys"
    "filter (\<lambda>r. id' r \<noteq> i) xs = xs" "filter (\<lambda>r. id' r \<noteq> i) ys = ys"
    using n by (auto simp: map_idI filter_id_conv)
  then show ?thesis using t n assms(3) by auto
qed

lemma consistent_close:
  "consistent (close s) \<longleftrightarrow>
     distinct (map id' (table s)) \<and> distinct (map name (table s))"
  by (simp add: consistent_def close_def)

lemma consistent_create: "consistent s \<Longrightarrow> consistent (close (snd (create e s b)))"
proof -
  assume c: "consistent s"
  then have p: "pending s = []" and di: "distinct (map id' (table s))"
    and dn: "distinct (map name (table s))" by (simp_all add: consistent_def)
  from create_cases [OF p, of e b] show ?thesis
  proof
    assume "\<exists>q pr. create e s b =
        (Inr (insert_row e b q pr), \<lparr>table = table s @ [insert_row e b q pr], pending = []\<rparr>) \<and>
      name b \<notin> name ` set (table s) \<and> str_uuid (uuid4 e) \<notin> id' ` set (table s)"
    then show ?thesis using di dn by (auto simp: consistent_close insert_row_simps)
  next
    assume "table (snd (create e s b)) = table s"
    then show ?thesis using di dn by (simp add: consistent_close)
  qed
qed

lemma consistent_update: "consistent s \<Longrightarrow> consistent (close (snd (update e s i b)))"
proof -
  assume c: "consistent s"
  then have p: "pending s = []" and di: "distinct (map id' (table s))"
    and dn: "distinct (map name (table s))" by (simp_all add: consistent_def)
  show ?thesis
  proof (cases "session_get s i")
    case None
    then show ?thesis using di dn by (simp add: update_def consistent_close)
  next
    case (Some r)
    then have r: "r \<in> set (table s)" "id' r = i" by (simp_all add: session_get_Some)
    from update_cases [OF p Some, of e b]
    consider (kept) "table (snd (update e s i b)) = table s"
      | (changed) q where
          "table (snd (update e s i b)) = map (\<lambda>r. if id' r = i then q else r) (table s)"
          "id' q = i"
          "name q = name r \<or>
           name q \<notin> set (map name (filter (\<lambda>r. id' r \<noteq> i) (table s)))"
      by blast
    then show ?thesis
    proof cases
      case kept
      then show ?thesis using di dn by (simp add: consistent_close)
    next
      case changed
      note u = changed(1) and q = changed(2) and n = changed(3)
      from replace_row [OF di r, of q] obtain xs ys where
        t: "table s = xs @ r # ys"
        and m: "map (\<lambda>r. if id' r = i then q else r) (table s) = xs @ q # ys"
        and f: "filter (\<lambda>r. id' r \<noteq> i) (table s) = xs @ ys"
        by blast
      have "name q = name r \<or> name q \<notin> set (map name (xs @ ys))"
        using n by (simp only: f)
      moreover have "name r \<notin> set (map name (xs @ ys))"
        using dn unfolding t by auto
      ultimately have "name q \<notin> set (map name (xs @ ys))"
        by metis
      then have "distinct (map name (xs @ q # ys))" using dn unfolding t by auto
      moreover have "distinct (map id' (xs @ q # ys))" using di q r(2) unfolding t by auto
      ultimately show ?thesis using u m by (simp add: consistent_close)
    qed
  qed
qed

lemma consistent_delete: "consistent s \<Longrightarrow> consistent (close (snd (delete e s i)))"
proof -
  assume c: "consistent s"
  then have p: "pending s = []" and di: "distinct (map id' (table s))"
    and dn: "distinct (map name (table s))" by (simp_all add: consistent_def)
  show ?thesis
    using di dn by (simp add: delete_table [OF p] consistent_close distinct_map_filter)
qed

lemma consistent_step: "consistent s \<Longrightarrow> consistent (step s ec)"
proof (cases ec)
  case (Pair e c)
  assume "consistent s"
  then show ?thesis unfolding Pair
    by (cases c) (simp_all add: consistent_create consistent_update consistent_delete)
qed

lemma consistent_foldl: "consistent s \<Longrightarrow> consistent (foldl step s calls)"
  by (induction calls arbitrary: s) (simp_all add: consistent_step)

lemma consistent_run: "consistent (run calls)"
  unfolding run_def by (rule consistent_foldl) (simp add: consistent_def init_def)

lemma only_row:
  assumes "distinct (map f xs)" and "p \<in> set xs"
  shows "filter (\<lambda>r. f r = f p) xs = [p]"
  using assms
proof (induction xs)
  case Nil
  then show ?case by simp
next
  case (Cons x xs)
  show ?case
  proof (cases "x = p")
    case True
    then have "f p \<notin> f ` set xs" using Cons.prems(1) by auto
    then have "\<forall>r \<in> set xs. f r \<noteq> f p" by (auto simp: image_iff)
    then have "filter (\<lambda>r. f r = f p) xs = []" by (auto simp: filter_empty_conv)
    then show ?thesis using True by simp
  next
    case False
    then have "p \<in> set xs" using Cons.prems(2) by simp
    moreover have "f x \<notin> f ` set xs" using Cons.prems(1) by auto
    then have "f x \<noteq> f p" using \<open>p \<in> set xs\<close> by (auto simp: image_iff)
    ultimately show ?thesis using Cons by simp
  qed
qed

section \<open>Timestamps along a sequence of calls\<close>

lemma timed_mono: "timed t s \<Longrightarrow> t \<le> t' \<Longrightarrow> timed t' s"
  by (auto simp: timed_def list_all_iff)

lemma timed_close: "timed t (close s) = timed t s"
  by (simp add: timed_def close_def)

lemma timed_create:
  assumes "pending s = []" and "timed t s" and "t \<le> utcnow1 e" and "utcnow1 e \<le> utcnow2 e"
  shows "timed (utcnow2 e) (snd (create e s b))"
proof -
  have o: "timed (utcnow2 e) s" using assms(2-4) by (auto intro: timed_mono)
  from create_cases [OF assms(1), of e b] show ?thesis
  proof
    assume "\<exists>q pr. create e s b =
        (Inr (insert_row e b q pr), \<lparr>table = table s @ [insert_row e b q pr], pending = []\<rparr>) \<and>
      name b \<notin> name ` set (table s) \<and> str_uuid (uuid4 e) \<notin> id' ` set (table s)"
    then show ?thesis using o assms(4) by (auto simp: timed_def insert_row_simps)
  next
    assume "table (snd (create e s b)) = table s"
    then show ?thesis using o by (simp add: timed_def)
  qed
qed

lemma timed_update:
  assumes "pending s = []" and "timed t s" and "t \<le> utcnow1 e" and "utcnow1 e \<le> utcnow2 e"
  shows "timed (utcnow2 e) (snd (update e s i b))"
proof -
  have o: "timed (utcnow2 e) s" using assms(2-4) by (auto intro: timed_mono)
  show ?thesis
  proof (cases "session_get s i")
    case None
    then show ?thesis using o by (simp add: update_def)
  next
    case (Some r)
    then have "r \<in> set (table s)" by (simp add: session_get_Some)
    then have r: "created_at r \<le> t" using assms(2) by (auto simp: timed_def list_all_iff)
    from update_cases [OF assms(1) Some, of e b]
    consider (kept) "table (snd (update e s i b)) = table s"
      | (changed) q where
          "table (snd (update e s i b)) = map (\<lambda>r. if id' r = i then q else r) (table s)"
          "created_at q = created_at r"
          "updated_at q = utcnow1 e \<or> updated_at q = utcnow2 e"
      by blast
    then show ?thesis
    proof cases
      case kept
      then show ?thesis using o by (simp add: timed_def)
    next
      case changed
      have "created_at q \<le> updated_at q \<and> updated_at q \<le> utcnow2 e"
        using changed(2,3) r assms(3,4) by auto
      then show ?thesis
        using o by (auto simp: changed(1) timed_def list_all_iff)
    qed
  qed
qed

lemma timed_delete:
  assumes "pending s = []" and "timed t s" and "t \<le> utcnow1 e" and "utcnow1 e \<le> utcnow2 e"
  shows "timed (utcnow2 e) (snd (delete e s i))"
proof -
  have o: "timed (utcnow2 e) s" using assms(2-4) by (auto intro: timed_mono)
  then show ?thesis
    by (auto simp: delete_table [OF assms(1)] timed_def list_all_iff)
qed

lemma timed_foldl:
  "clock_ordered t calls \<Longrightarrow> consistent s \<Longrightarrow> timed t s \<Longrightarrow>
   \<exists>t'. timed t' (foldl step s calls)"
proof (induction calls arbitrary: t s)
  case Nil
  then show ?case by auto
next
  case (Cons ec calls)
  obtain e c where ec: "ec = (e, c)" by (cases ec)
  have k: "t \<le> utcnow1 e" "utcnow1 e \<le> utcnow2 e" "clock_ordered (utcnow2 e) calls"
    using Cons.prems(1) by (simp_all add: ec)
  have p: "pending s = []" using Cons.prems(2) by (simp add: consistent_def)
  have "timed (utcnow2 e) (step s ec)"
    unfolding ec using p Cons.prems(3) k(1,2)
    by (cases c) (simp_all add: timed_close timed_create timed_update timed_delete)
  moreover have "consistent (step s ec)" using Cons.prems(2) by (rule consistent_step)
  ultimately show ?case using Cons.IH [OF k(3)] by simp
qed

lemma timed_run:
  assumes "clock_ordered t calls"
  shows "list_all (\<lambda>p. created_at p \<le> updated_at p) (table (run calls))"
proof -
  have "consistent init" "timed t init" by (simp_all add: consistent_def timed_def init_def)
  with assms obtain t' where "timed t' (run calls)"
    unfolding run_def by (blast dest: timed_foldl)
  then show ?thesis by (auto simp: timed_def list_all_iff)
qed

lemma create_prefix:
  assumes "pending s = []"
  shows "prefix (table s) (table (snd (create e s b)))"
  using create_cases [OF assms, of e b] by auto

lemma update_keeps:
  assumes "consistent s"
  shows "map id' (table (snd (update e s i b))) = map id' (table s) \<and>
         map created_at (table (snd (update e s i b))) = map created_at (table s)"
proof (cases "session_get s i")
  case None
  then show ?thesis by (simp add: update_def)
next
  case (Some r)
  have p: "pending s = []" and di: "distinct (map id' (table s))"
    using assms by (simp_all add: consistent_def)
  have r: "r \<in> set (table s)" "id' r = i" using Some by (simp_all add: session_get_Some)
  from update_cases [OF p Some, of e b]
  consider (kept) "table (snd (update e s i b)) = table s"
    | (changed) q where
        "table (snd (update e s i b)) = map (\<lambda>r. if id' r = i then q else r) (table s)"
        "id' q = i" "created_at q = created_at r"
    by blast
  then show ?thesis
  proof cases
    case kept
    then show ?thesis by simp
  next
    case changed
    from replace_row [OF di r, of q] obtain xs ys where
      t: "table s = xs @ r # ys"
      and m: "map (\<lambda>r. if id' r = i then q else r) (table s) = xs @ q # ys"
      by blast
    show ?thesis using changed r(2) by (simp add: m) (simp add: t)
  qed
qed

section \<open>LIKE on a pattern without wildcards\<close>






section \<open>Filters that are empty\<close>

lemma empty_filter_is_absent:
  "query e s (Some []) category = query e s None category \<and>
   query e s nm (Some []) = query e s nm None \<and>
   where_name e (Some []) = [] \<and>
   where_category e (Some []) = Inr [] \<and>
   query e s nm (Some []) = Inr (execute s (where_name e nm)) \<and>
   query e s (Some []) (Some []) = Inr (table s) \<and>
   query e s (Some []) None = Inr (table s) \<and>
   query e s None (Some []) = Inr (table s)"
  by (simp add: query_def execute_def map_from_orm)

section \<open>The routes\<close>



section \<open>The concrete stores, as the properties use them\<close>

lemma one_widget_consistent: "consistent one_widget"
  by (simp add: one_widget_eq consistent_def)

lemma two_products_consistent: "consistent two_products"
  by (simp add: two_products_eq consistent_def)

lemma get_widget:
  "session_get one_widget (str_uuid (version4 1)) =
     Some \<lparr>name = ''Widget'', quantity = 10, price = 999, status = True,
            id' = ''00000000-0000-4000-8000-000000000001'',
            created_at = 100, updated_at = 101\<rparr>"
  by (simp add: one_widget_eq session_get_def id_Suc_0)

lemma get_gadget:
  "session_get two_products (str_uuid (version4 2)) =
     Some \<lparr>name = ''Gadget'', quantity = 1, price = 250, status = False,
            id' = ''00000000-0000-4000-8000-000000000002'',
            created_at = 110, updated_at = 111\<rparr>"
  by (simp add: two_products_eq session_get_def id_2)

lemma strict_bind: "\<not> in_range c v \<Longrightarrow> bind (env_of u t1 t2) c v = None"
  by (simp add: bind_def env_of_def)

section \<open>The properties\<close>

text \<open>
  C1, as amended. On a session with nothing left to flush, for a valid create input
  whose quantity and price are within the range of their columns, whose name no stored
  product has, and a generated id that no stored product has, \<open>create\<close> succeeds: the
  row is appended to the table and returned, its id is the generated UUID, which is not
  empty, its name, quantity, price and status are those of the input, its
  \<open>created_at\<close> is the first reading of the clock and its \<open>updated_at\<close> the second, so
  the two are equal exactly when the two readings are.
\<close>

theorem create_returns_input:
  assumes "pending s = []"
    and "valid_in b" and "fits b"
    and "name b \<notin> name ` set (table s)"
    and "str_uuid (uuid4 e) \<notin> id' ` set (table s)"
  shows "create e s b =
           (Inr \<lparr>name = name b, quantity = quantity b, price = price b, status = status b,
                  id' = str_uuid (uuid4 e), created_at = utcnow1 e, updated_at = utcnow2 e\<rparr>,
            \<lparr>table = table s @
                [\<lparr>name = name b, quantity = quantity b, price = price b, status = status b,
                  id' = str_uuid (uuid4 e), created_at = utcnow1 e, updated_at = utcnow2 e\<rparr>],
             pending = []\<rparr>) \<and>
         str_uuid (uuid4 e) \<noteq> [] \<and>
         (\<forall>row. fst (create e s b) = Inr row \<longrightarrow>
            (created_at row = updated_at row) = (utcnow1 e = utcnow2 e))"
  using create_ok [OF assms(1,3-5)] str_uuid_nonempty [of "uuid4 e"]
  by (simp add: insert_row_def)

theorem create_returns_input_witness:
  "pending init = [] \<and> valid_in widget \<and> fits widget \<and>
   name widget \<notin> name ` set (table init) \<and>
   str_uuid (uuid4 (env_of 1 100 100)) \<notin> id' ` set (table init) \<and>
   create (env_of 1 100 100) init widget =
     (Inr \<lparr>name = ''Widget'', quantity = 10, price = 999, status = True,
            id' = ''00000000-0000-4000-8000-000000000001'',
            created_at = 100, updated_at = 100\<rparr>,
      \<lparr>table = [\<lparr>name = ''Widget'', quantity = 10, price = 999, status = True,
                  id' = ''00000000-0000-4000-8000-000000000001'',
                  created_at = 100, updated_at = 100\<rparr>],
       pending = []\<rparr>)"
proof -
  have h: "pending init = []" "valid_in widget" "fits widget"
    "name widget \<notin> name ` set (table init)"
    "str_uuid (uuid4 (env_of 1 100 100)) \<notin> id' ` set (table init)"
    by (simp_all add: init_def valid_in_def fits_def widget_def)
  have "create (env_of 1 100 100) init widget =
     (Inr \<lparr>name = ''Widget'', quantity = 10, price = 999, status = True,
            id' = ''00000000-0000-4000-8000-000000000001'',
            created_at = 100, updated_at = 100\<rparr>,
      \<lparr>table = [\<lparr>name = ''Widget'', quantity = 10, price = 999, status = True,
                  id' = ''00000000-0000-4000-8000-000000000001'',
                  created_at = 100, updated_at = 100\<rparr>],
       pending = []\<rparr>)"
    using create_returns_input [OF h]
    by (simp add: init_def widget_def env_of_def uuid4_def id_Suc_0)
  then show ?thesis using h by simp
qed

text \<open>
  C1 as stated fails, in three ways. The two column defaults read the clock one after
  the other: with the readings 100 and 101 the created product has \<open>created_at\<close> 100
  and \<open>updated_at\<close> 101. A unique name is not enough for \<open>create\<close> to succeed: when
  the generated id is the id of a stored product, the primary key rejects the row. And
  a valid input is not enough either: a quantity of \<open>2 ^ 63\<close> is a non-negative
  integer, which the column does not take; the driver raises an error that is no
  \<open>IntegrityError\<close>, and nothing is stored.
\<close>

theorem create_timestamps_differ:
  "valid_in widget \<and>
   create (env_of 1 100 101) init widget =
     (Inr \<lparr>name = ''Widget'', quantity = 10, price = 999, status = True,
            id' = ''00000000-0000-4000-8000-000000000001'',
            created_at = 100, updated_at = 101\<rparr>,
      \<lparr>table = [\<lparr>name = ''Widget'', quantity = 10, price = 999, status = True,
                  id' = ''00000000-0000-4000-8000-000000000001'',
                  created_at = 100, updated_at = 101\<rparr>],
       pending = []\<rparr>) \<and>
   (100 :: datetime) \<noteq> 101 \<and>
   valid_in gadget \<and>
   name gadget \<notin> name ` set (table one_widget) \<and>
   create (env_of 1 200 200) one_widget gadget =
     (Inl (IntegrityError ''UNIQUE constraint failed: products.id''), one_widget) \<and>
   valid_in big_order \<and>
   name big_order \<notin> name ` set (table init) \<and>
   create (env_of 1 100 100) init big_order =
     (Inl (DriverError OutOfRange), \<lparr>table = [], pending = [Insert big_order]\<rparr>)"
proof -
  have v: "valid_in widget" "valid_in gadget" "valid_in big_order"
    by (simp_all add: valid_in_def widget_def gadget_def big_order_def)
  have a: "create (env_of 1 100 101) init widget =
     (Inr \<lparr>name = ''Widget'', quantity = 10, price = 999, status = True,
            id' = ''00000000-0000-4000-8000-000000000001'',
            created_at = 100, updated_at = 101\<rparr>,
      \<lparr>table = [\<lparr>name = ''Widget'', quantity = 10, price = 999, status = True,
                  id' = ''00000000-0000-4000-8000-000000000001'',
                  created_at = 100, updated_at = 101\<rparr>],
       pending = []\<rparr>)"
    by (simp add: init_def create_ok fits_def insert_row_def env_of_def uuid4_def widget_def
        id_Suc_0)
  have b: "name gadget \<notin> name ` set (table one_widget)"
    by (simp add: one_widget_eq gadget_def)
  have "pending one_widget = []" "fits gadget"
    "name gadget \<in> name ` set (table one_widget) \<or>
     str_uuid (uuid4 (env_of 1 200 200)) \<in> id' ` set (table one_widget)"
    by (simp_all add: one_widget_eq env_of_def uuid4_def id_Suc_0 fits_def gadget_def)
  from create_conflict [OF this]
  have c: "create (env_of 1 200 200) one_widget gadget =
     (Inl (IntegrityError ''UNIQUE constraint failed: products.id''), one_widget)"
    by (simp add: violated_def insert_row_def one_widget_eq env_of_def uuid4_def id_Suc_0
        gadget_def sqlite_orig_def)
  have d: "name big_order \<notin> name ` set (table init)" by (simp add: init_def)
  have "pending init = []"
    "bind (env_of 1 100 100) Column_quantity (quantity big_order) = None \<or>
     bind (env_of 1 100 100) Column_price (price big_order) = None"
    by (simp_all add: init_def big_order_def bind_def env_of_def)
  from create_out_of_range [OF this]
  have f: "create (env_of 1 100 100) init big_order =
     (Inl (DriverError OutOfRange), \<lparr>table = [], pending = [Insert big_order]\<rparr>)"
    by (simp add: add_def init_def)
  show ?thesis using v a b c d f by simp
qed

text \<open>
  C2, as amended. In a state of the store (nothing left to flush, the primary key and
  the \<open>unique\<close> constraint of \<open>name\<close> kept), for a stored product \<open>p\<close> with id \<open>i\<close> and
  an update input whose name, if it has one, is the name of no other stored product and
  whose quantity and price, if it has them, are within the range of their columns,
  whatever the clock reads: \<open>update\<close> returns the row \<open>p\<close> with exactly the fields of
  the input replaced, its id, its \<open>created_at\<close> and every field the input leaves out as
  they were; the row replaces \<open>p\<close> in the table and every other row is as it was. Its
  \<open>updated_at\<close> is a reading of the clock: the first one, or the second when the first
  is the value the row has already and a field changes. When the first reading is later
  than the \<open>updated_at\<close> of \<open>p\<close>, that reading is stored and \<open>updated_at\<close> is strictly
  greater than before. In particular an input with the quantity 5 alone sets the
  quantity to 5 and leaves name, price and status.
\<close>

theorem update_applies_present_fields:
  assumes "consistent s"
    and "session_get s i = Some p"
    and "\<not> name_taken (table s) i b"
    and "update_fits b"
  shows "update e s i b =
           (Inr \<lparr>name = (case name' b of None \<Rightarrow> name p | Some v \<Rightarrow> v),
                  quantity = (case quantity' b of None \<Rightarrow> quantity p | Some v \<Rightarrow> v),
                  price = (case price' b of None \<Rightarrow> price p | Some v \<Rightarrow> v),
                  status = (case status' b of None \<Rightarrow> status p | Some v \<Rightarrow> v),
                  id' = id' p, created_at = created_at p, updated_at = stamp e p b\<rparr>,
            \<lparr>table = map (\<lambda>r. if id' r = i
                               then (patched p b)\<lparr>updated_at := stamp e p b\<rparr> else r) (table s),
             pending = []\<rparr>) \<and>
         (stamp e p b = utcnow1 e \<or> stamp e p b = utcnow2 e) \<and>
         (updated_at p < utcnow1 e \<longrightarrow> stamp e p b = utcnow1 e \<and> updated_at p < stamp e p b) \<and>
         (b = only_quantity 5 \<longrightarrow>
            quantity (patched p b) = 5 \<and> name (patched p b) = name p \<and>
            price (patched p b) = price p \<and> status (patched p b) = status p)"
proof -
  have "(patched p b)\<lparr>updated_at := stamp e p b\<rparr> =
          \<lparr>name = (case name' b of None \<Rightarrow> name p | Some v \<Rightarrow> v),
           quantity = (case quantity' b of None \<Rightarrow> quantity p | Some v \<Rightarrow> v),
           price = (case price' b of None \<Rightarrow> price p | Some v \<Rightarrow> v),
           status = (case status' b of None \<Rightarrow> status p | Some v \<Rightarrow> v),
           id' = id' p, created_at = created_at p, updated_at = stamp e p b\<rparr>"
    by (simp add: patched_def)
  moreover have "stamp e p b = utcnow1 e \<or> stamp e p b = utcnow2 e"
    by (simp add: stamp_def)
  moreover have "updated_at p < utcnow1 e \<longrightarrow>
      stamp e p b = utcnow1 e \<and> updated_at p < stamp e p b"
    by (simp add: stamp_def)
  moreover have "b = only_quantity 5 \<longrightarrow>
            quantity (patched p b) = 5 \<and> name (patched p b) = name p \<and>
            price (patched p b) = price p \<and> status (patched p b) = status p"
    by (simp add: patched_def only_quantity_def)
  ultimately show ?thesis
    using update_ok [OF assms, of e] by simp
qed

theorem update_applies_present_fields_witness:
  "consistent one_widget \<and>
   session_get one_widget (str_uuid (version4 1)) =
     Some \<lparr>name = ''Widget'', quantity = 10, price = 999, status = True,
            id' = ''00000000-0000-4000-8000-000000000001'',
            created_at = 100, updated_at = 101\<rparr> \<and>
   \<not> name_taken (table one_widget) (str_uuid (version4 1)) (only_quantity 5) \<and>
   update_fits (only_quantity 5) \<and>
   (101 :: datetime) < utcnow1 (env_of 3 200 201) \<and>
   update (env_of 3 200 201) one_widget (str_uuid (version4 1)) (only_quantity 5) =
     (Inr \<lparr>name = ''Widget'', quantity = 5, price = 999, status = True,
            id' = ''00000000-0000-4000-8000-000000000001'',
            created_at = 100, updated_at = 200\<rparr>,
      \<lparr>table = [\<lparr>name = ''Widget'', quantity = 5, price = 999, status = True,
                  id' = ''00000000-0000-4000-8000-000000000001'',
                  created_at = 100, updated_at = 200\<rparr>],
       pending = []\<rparr>)"
proof -
  let ?p = "\<lparr>name = ''Widget'', quantity = 10, price = 999, status = True,
            id' = ''00000000-0000-4000-8000-000000000001'',
            created_at = 100, updated_at = 101\<rparr>"
  have h: "consistent one_widget"
    "session_get one_widget (str_uuid (version4 1)) = Some ?p"
    "\<not> name_taken (table one_widget) (str_uuid (version4 1)) (only_quantity 5)"
    "update_fits (only_quantity 5)"
    using one_widget_consistent get_widget
    by (simp_all add: name_taken_def update_fits_def only_quantity_def)
  have t: "updated_at ?p < utcnow1 (env_of 3 200 201)"
    by (simp add: env_of_def)
  have s: "stamp (env_of 3 200 201) ?p (only_quantity 5) = 200"
    using update_applies_present_fields [OF h, of "env_of 3 200 201"] t
    by (simp add: env_of_def)
  have "update (env_of 3 200 201) one_widget (str_uuid (version4 1)) (only_quantity 5) =
     (Inr \<lparr>name = ''Widget'', quantity = 5, price = 999, status = True,
            id' = ''00000000-0000-4000-8000-000000000001'',
            created_at = 100, updated_at = 200\<rparr>,
      \<lparr>table = [\<lparr>name = ''Widget'', quantity = 5, price = 999, status = True,
                  id' = ''00000000-0000-4000-8000-000000000001'',
                  created_at = 100, updated_at = 200\<rparr>],
       pending = []\<rparr>)"
    using update_applies_present_fields [OF h, of "env_of 3 200 201"] s
    by (simp add: only_quantity_def patched_def one_widget_eq id_Suc_0)
  then show ?thesis using h t by simp
qed

text \<open>
  C2 as stated fails, in three ways. An update that sets the name of another stored
  product is not applied: \<open>update\<close> raises \<open>IntegrityError\<close> and the table is as it was.
  \<open>updated_at\<close> is a reading of the clock, not a greater value: an update of the
  quantity whose readings are 101, on a product last updated at 101, leaves
  \<open>updated_at\<close> at 101. And an update that sets the quantity to \<open>2 ^ 63\<close>, which the
  column does not take, is not applied: the driver raises an error that is no
  \<open>IntegrityError\<close> and the table is as it was.
\<close>

theorem update_rejected_or_same_tick:
  "update (env_of 3 200 200) two_products (str_uuid (version4 2)) (only_name ''Widget'') =
     (Inl (IntegrityError ''UNIQUE constraint failed: products.name''), two_products) \<and>
   update (env_of 3 101 101) one_widget (str_uuid (version4 1)) (only_quantity 5) =
     (Inr \<lparr>name = ''Widget'', quantity = 5, price = 999, status = True,
            id' = ''00000000-0000-4000-8000-000000000001'',
            created_at = 100, updated_at = 101\<rparr>,
      \<lparr>table = [\<lparr>name = ''Widget'', quantity = 5, price = 999, status = True,
                  id' = ''00000000-0000-4000-8000-000000000001'',
                  created_at = 100, updated_at = 101\<rparr>],
       pending = []\<rparr>) \<and>
   table one_widget =
     [\<lparr>name = ''Widget'', quantity = 10, price = 999, status = True,
       id' = ''00000000-0000-4000-8000-000000000001'',
       created_at = 100, updated_at = 101\<rparr>] \<and>
   fst (update (env_of 3 200 200) one_widget (str_uuid (version4 1)) (only_quantity (2 ^ 63))) =
     Inl (DriverError OutOfRange) \<and>
   table (snd (update (env_of 3 200 200) one_widget (str_uuid (version4 1))
                 (only_quantity (2 ^ 63)))) =
     table one_widget"
proof -
  let ?w = "\<lparr>name = ''Widget'', quantity = 10, price = 999, status = True,
             id' = ''00000000-0000-4000-8000-000000000001'',
             created_at = 100, updated_at = 101\<rparr>"
  have "pending two_products = []"
    "session_get two_products (str_uuid (version4 2)) =
       Some \<lparr>name = ''Gadget'', quantity = 1, price = 250, status = False,
              id' = ''00000000-0000-4000-8000-000000000002'',
              created_at = 110, updated_at = 111\<rparr>"
    "name' (only_name ''Widget'') = Some ''Widget''"
    "''Widget'' \<noteq> name \<lparr>name = ''Gadget'', quantity = 1, price = 250, status = False,
              id' = ''00000000-0000-4000-8000-000000000002'',
              created_at = 110, updated_at = 111\<rparr>"
    "''Widget'' \<in> set (map name (filter (\<lambda>r. id' r \<noteq> str_uuid (version4 2))
                                    (table two_products)))"
    "update_fits (only_name ''Widget'')"
    using get_gadget
    by (simp_all add: two_products_eq id_2 only_name_def update_fits_def session_get_def)
  from update_conflict [OF this, of "env_of 3 200 200"]
  have a: "update (env_of 3 200 200) two_products (str_uuid (version4 2)) (only_name ''Widget'') =
     (Inl (IntegrityError ''UNIQUE constraint failed: products.name''), two_products)"
    by (simp add: env_of_def sqlite_orig_def)
  have "consistent one_widget"
    "session_get one_widget (str_uuid (version4 1)) = Some ?w"
    "\<not> name_taken (table one_widget) (str_uuid (version4 1)) (only_quantity 5)"
    "update_fits (only_quantity 5)"
    using one_widget_consistent get_widget
    by (simp_all add: name_taken_def update_fits_def only_quantity_def)
  from update_ok [OF this, of "env_of 3 101 101"]
  have b: "update (env_of 3 101 101) one_widget (str_uuid (version4 1)) (only_quantity 5) =
     (Inr \<lparr>name = ''Widget'', quantity = 5, price = 999, status = True,
            id' = ''00000000-0000-4000-8000-000000000001'',
            created_at = 100, updated_at = 101\<rparr>,
      \<lparr>table = [\<lparr>name = ''Widget'', quantity = 5, price = 999, status = True,
                  id' = ''00000000-0000-4000-8000-000000000001'',
                  created_at = 100, updated_at = 101\<rparr>],
       pending = []\<rparr>)"
    by (simp add: stamp_def same_fields_def only_quantity_def patched_def env_of_def
        one_widget_eq id_Suc_0)
  have "pending one_widget = []"
    "session_get one_widget (str_uuid (version4 1)) = Some ?w"
    "quantity' (only_quantity (2 ^ 63)) = Some (2 ^ 63)"
    "(2 ^ 63 :: int) \<noteq> quantity ?w"
    "bind (env_of 3 200 200) Column_quantity (2 ^ 63) = None"
    using get_widget
    by (simp_all add: one_widget_eq session_get_def only_quantity_def bind_def env_of_def)
  from update_out_of_range [OF this]
  have c: "update (env_of 3 200 200) one_widget (str_uuid (version4 1)) (only_quantity (2 ^ 63)) =
     (Inl (DriverError OutOfRange),
      modified ?w ((patched ?w (only_quantity (2 ^ 63)))\<lparr>updated_at := utcnow1 (env_of 3 200 200)\<rparr>)
        one_widget)" .
  have d: "fst (update (env_of 3 200 200) one_widget (str_uuid (version4 1))
                  (only_quantity (2 ^ 63))) = Inl (DriverError OutOfRange)"
    "table (snd (update (env_of 3 200 200) one_widget (str_uuid (version4 1))
                 (only_quantity (2 ^ 63)))) = table one_widget"
    unfolding c by (simp_all add: modified_def)
  show ?thesis using a b d by (simp add: one_widget_eq)
qed

text \<open>
  C3, as amended. In every state that a sequence of calls reaches, when a product is
  stored under the name of a create input whose quantity and price are within the range
  of their columns, \<open>create\<close> raises \<open>IntegrityError\<close>, with the driver's text for the
  violated constraints (the constraint of \<open>name\<close>, and the primary key as well when the
  generated id is taken), the session it leaves is the session it found, with nothing
  left to flush, so the table is unchanged, and the stored product is the only row under
  that name.
\<close>

theorem create_duplicate_name:
  assumes "p \<in> set (table (run calls))" and "name b = name p" and "fits b"
  shows "create e (run calls) b =
           (Inl (IntegrityError
                  (orig e (violated (table (run calls))
                             (insert_row e b (quantity b) (price b))))),
            run calls) \<and>
         products_name_key \<in>
           set (violated (table (run calls)) (insert_row e b (quantity b) (price b))) \<and>
         pending (run calls) = [] \<and>
         filter (\<lambda>r. name r = name b) (table (snd (create e (run calls) b))) = [p]"
proof -
  have c: "consistent (run calls)" by (rule consistent_run)
  then have pe: "pending (run calls) = []" and dn: "distinct (map name (table (run calls)))"
    by (simp_all add: consistent_def)
  have n: "name b \<in> name ` set (table (run calls))" using assms(1,2) by auto
  then have k: "create e (run calls) b =
           (Inl (IntegrityError
                  (orig e (violated (table (run calls))
                             (insert_row e b (quantity b) (price b))))),
            run calls)"
    using create_conflict [OF pe assms(3), of e] by simp
  have v: "products_name_key \<in>
           set (violated (table (run calls)) (insert_row e b (quantity b) (price b)))"
    using n by (simp add: violated_def insert_row_simps)
  have "filter (\<lambda>r. name r = name p) (table (run calls)) = [p]"
    using only_row [OF dn assms(1)] .
  then show ?thesis using k v pe assms(2) by simp
qed

theorem create_duplicate_name_witness:
  "\<lparr>name = ''Widget'', quantity = 10, price = 999, status = True,
     id' = ''00000000-0000-4000-8000-000000000001'', created_at = 100, updated_at = 101\<rparr>
     \<in> set (table one_widget) \<and>
   name widget = ''Widget'' \<and> fits widget \<and>
   create (env_of 2 200 200) one_widget widget =
     (Inl (IntegrityError ''UNIQUE constraint failed: products.name''), one_widget) \<and>
   pending one_widget = [] \<and>
   filter (\<lambda>r. name r = ''Widget'') (table one_widget) =
     [\<lparr>name = ''Widget'', quantity = 10, price = 999, status = True,
       id' = ''00000000-0000-4000-8000-000000000001'', created_at = 100, updated_at = 101\<rparr>]"
proof -
  let ?p = "\<lparr>name = ''Widget'', quantity = 10, price = 999, status = True,
     id' = ''00000000-0000-4000-8000-000000000001'', created_at = 100, updated_at = 101\<rparr>"
  have h: "?p \<in> set (table (run [(env_of 1 100 101, Call_create widget)]))"
    "name widget = name ?p" "fits widget"
    unfolding one_widget_def [symmetric]
    by (simp_all add: one_widget_eq widget_def fits_def)
  have o: "orig (env_of 2 200 200)
             (violated (table one_widget)
                (insert_row (env_of 2 200 200) widget (quantity widget) (price widget))) =
           ''UNIQUE constraint failed: products.name''"
    by (simp add: violated_def insert_row_def one_widget_eq env_of_def uuid4_def id_2
        widget_def sqlite_orig_def)
  have w: "name widget = ''Widget''" by (simp add: widget_def)
  from create_duplicate_name [OF h, of "env_of 2 200 200", folded one_widget_def] o w
  have "create (env_of 2 200 200) one_widget widget =
     (Inl (IntegrityError ''UNIQUE constraint failed: products.name''), one_widget)"
    "pending one_widget = []"
    "filter (\<lambda>r. name r = ''Widget'') (table one_widget) = [?p]"
    by auto
  moreover have "?p \<in> set (table one_widget)" by (simp add: one_widget_eq)
  ultimately show ?thesis using w h(3) by simp
qed

text \<open>
  C3 as stated fails. A create with the name of a stored product and a quantity of
  \<open>2 ^ 63\<close>, which the column does not take, does not raise \<open>IntegrityError\<close>: the
  driver refuses the quantity before any constraint is checked. \<open>except IntegrityError\<close>
  does not catch that error, so the session is not rolled back: it is left with the
  insert still to flush. The table is as it was.
\<close>

theorem create_duplicate_out_of_range:
  "\<lparr>name = ''Widget'', quantity = 10, price = 999, status = True,
     id' = ''00000000-0000-4000-8000-000000000001'', created_at = 100, updated_at = 101\<rparr>
     \<in> set (table one_widget) \<and>
   name big_order = ''Widget'' \<and>
   create (env_of 2 200 200) one_widget big_order =
     (Inl (DriverError OutOfRange),
      \<lparr>table = table one_widget, pending = [Insert big_order]\<rparr>)"
proof -
  have "pending one_widget = []"
    "bind (env_of 2 200 200) Column_quantity (quantity big_order) = None \<or>
     bind (env_of 2 200 200) Column_price (price big_order) = None"
    by (simp_all add: one_widget_eq big_order_def bind_def env_of_def)
  from create_out_of_range [OF this]
  have "create (env_of 2 200 200) one_widget big_order =
     (Inl (DriverError OutOfRange),
      \<lparr>table = table one_widget, pending = [Insert big_order]\<rparr>)"
    by (simp add: add_def one_widget_eq)
  then show ?thesis by (simp add: one_widget_eq big_order_def)
qed

text \<open>
  C4: the code does not do what the claim says. With a category filter that is not
  empty, \<open>query\<close> evaluates \<open>Product.category\<close>, an attribute the class \<open>Product\<close> does not
  have, and raises \<open>AttributeError\<close> instead of returning products.
\<close>

theorem query_category_raises:
  "query (env_of 3 200 200) one_widget None (Some ''tools'') =
     Inl (AttributeError (''type object 'Product' has no attribute 'category'' @ [CHR 0x27]))"
  by (simp add: query_def Product_category_def)

text \<open>
  C5. With no row stored under an id, \<open>get\<close> on the id raises \<open>NotFoundException\<close>, and
  \<open>update\<close> on it raises \<open>NotFoundException\<close> and leaves the session, hence the table,
  as it was.
\<close>

theorem not_found_get_update:
  assumes "i \<notin> id' ` set (table s)"
  shows "get s i = Inl (NotFoundException (not_found i)) \<and>
         update e s i b = (Inl (NotFoundException (not_found i)), s)"
  using assms by (simp add: get_missing update_missing)

theorem not_found_get_update_witness:
  "str_uuid (version4 2) \<notin> id' ` set (table one_widget) \<and>
   get one_widget (str_uuid (version4 2)) = Inl (NotFoundException (not_found (str_uuid (version4 2)))) \<and>
   update (env_of 3 200 200) one_widget (str_uuid (version4 2)) (only_quantity 5) =
     (Inl (NotFoundException (not_found (str_uuid (version4 2)))), one_widget)"
proof -
  have h: "str_uuid (version4 2) \<notin> id' ` set (table one_widget)"
    by (simp add: one_widget_eq id_2)
  show ?thesis
    using h not_found_get_update [OF h, of "env_of 3 200 200" "only_quantity 5"] by simp
qed




text \<open>
  C7. On a session with nothing left to flush, \<open>delete\<close> on the id of a stored product
  returns \<open>None\<close>, the rows with that id are gone from the table, the other rows are as
  they were, and \<open>get\<close> on the id then raises \<open>NotFoundException\<close>; \<open>delete\<close> on an id
  that no row has raises \<open>NotFoundException\<close>.
\<close>

theorem delete_removes:
  assumes "pending s = []"
  shows "(i \<in> id' ` set (table s) \<longrightarrow>
            fst (delete e s i) = Inr () \<and>
            table (snd (delete e s i)) = filter (\<lambda>r. id' r \<noteq> i) (table s) \<and>
            pending (snd (delete e s i)) = [] \<and>
            get (snd (delete e s i)) i = Inl (NotFoundException (not_found i))) \<and>
         (i \<notin> id' ` set (table s) \<longrightarrow>
            delete e s i = (Inl (NotFoundException (not_found i)), s))"
proof (intro conjI impI)
  assume i: "i \<in> id' ` set (table s)"
  note d = delete_ok [OF assms i, of e]
  show "fst (delete e s i) = Inr ()" by (simp add: d)
  show "table (snd (delete e s i)) = filter (\<lambda>r. id' r \<noteq> i) (table s)" by (simp add: d)
  show "pending (snd (delete e s i)) = []" by (simp add: d)
  show "get (snd (delete e s i)) i = Inl (NotFoundException (not_found i))"
    by (rule get_missing) (auto simp: d)
next
  assume "i \<notin> id' ` set (table s)"
  then show "delete e s i = (Inl (NotFoundException (not_found i)), s)"
    by (rule delete_missing)
qed

theorem delete_removes_witness:
  "pending one_widget = [] \<and>
   str_uuid (version4 1) \<in> id' ` set (table one_widget) \<and>
   delete (env_of 3 200 200) one_widget (str_uuid (version4 1)) = (Inr (), \<lparr>table = [], pending = []\<rparr>) \<and>
   get (snd (delete (env_of 3 200 200) one_widget (str_uuid (version4 1)))) (str_uuid (version4 1)) =
     Inl (NotFoundException (not_found (str_uuid (version4 1)))) \<and>
   str_uuid (version4 2) \<notin> id' ` set (table one_widget) \<and>
   delete (env_of 3 200 200) one_widget (str_uuid (version4 2)) =
     (Inl (NotFoundException (not_found (str_uuid (version4 2)))), one_widget)"
proof -
  have p: "pending one_widget = []" by (simp add: one_widget_eq)
  have i1: "str_uuid (version4 1) \<in> id' ` set (table one_widget)" by (simp add: one_widget_eq id_Suc_0)
  have i2: "str_uuid (version4 2) \<notin> id' ` set (table one_widget)" by (simp add: one_widget_eq id_2)
  have t: "filter (\<lambda>r. id' r \<noteq> str_uuid (version4 1)) (table one_widget) = []"
    by (simp add: one_widget_eq id_Suc_0)
  from delete_removes [OF p, of "str_uuid (version4 1)" "env_of 3 200 200"] i1 t
  have a: "fst (delete (env_of 3 200 200) one_widget (str_uuid (version4 1))) = Inr ()"
    "table (snd (delete (env_of 3 200 200) one_widget (str_uuid (version4 1)))) = []"
    "pending (snd (delete (env_of 3 200 200) one_widget (str_uuid (version4 1)))) = []"
    "get (snd (delete (env_of 3 200 200) one_widget (str_uuid (version4 1)))) (str_uuid (version4 1)) =
       Inl (NotFoundException (not_found (str_uuid (version4 1))))"
    by simp_all
  have b: "delete (env_of 3 200 200) one_widget (str_uuid (version4 1)) = (Inr (), \<lparr>table = [], pending = []\<rparr>)"
    using a(1-3) by (cases "delete (env_of 3 200 200) one_widget (str_uuid (version4 1))") auto
  from delete_removes [OF p, of "str_uuid (version4 2)" "env_of 3 200 200"] i2
  have c: "delete (env_of 3 200 200) one_widget (str_uuid (version4 2)) =
     (Inl (NotFoundException (not_found (str_uuid (version4 2)))), one_widget)" by simp
  show ?thesis using p i1 i2 a(4) b c by simp
qed

text \<open>
  C8, as amended. When the readings of the clock never decrease along a sequence of
  calls, every product stored at its end has \<open>created_at\<close> at most \<open>updated_at\<close>. And
  in every state that a sequence of calls reaches, whatever the clock: \<open>create\<close> leaves
  the stored rows as they are and in place, \<open>update\<close> leaves the id and the
  \<open>created_at\<close> of every row, and \<open>delete\<close> leaves the rows it does not remove.
\<close>

theorem timestamps_ordered_identity_kept:
  "(clock_ordered t calls \<longrightarrow>
      list_all (\<lambda>p. created_at p \<le> updated_at p) (table (run calls))) \<and>
   prefix (table (run calls)) (table (step (run calls) (e, Call_create b))) \<and>
   map id' (table (step (run calls) (e, Call_update i u))) = map id' (table (run calls)) \<and>
   map created_at (table (step (run calls) (e, Call_update i u))) =
     map created_at (table (run calls)) \<and>
   table (step (run calls) (e, Call_delete i)) =
     filter (\<lambda>r. id' r \<noteq> i) (table (run calls))"
proof -
  have c: "consistent (run calls)" by (rule consistent_run)
  then have p: "pending (run calls) = []" by (simp add: consistent_def)
  show ?thesis
    using timed_run [of t calls] create_prefix [OF p, of e b] update_keeps [OF c, of e i u]
    by (simp add: delete_table [OF p] table_close)
qed

theorem timestamps_ordered_identity_kept_witness:
  "clock_ordered 0 [(env_of 1 100 101, Call_create widget),
                    (env_of 3 200 201, Call_update (str_uuid (version4 1)) (only_quantity 5))] \<and>
   list_all (\<lambda>p. created_at p \<le> updated_at p)
     (table (run [(env_of 1 100 101, Call_create widget),
                  (env_of 3 200 201, Call_update (str_uuid (version4 1)) (only_quantity 5))]))"
proof -
  have h: "clock_ordered 0 [(env_of 1 100 101, Call_create widget),
                    (env_of 3 200 201, Call_update (str_uuid (version4 1)) (only_quantity 5))]"
    by (simp add: env_of_def)
  show ?thesis
    using h timestamps_ordered_identity_kept [of 0 "[(env_of 1 100 101, Call_create widget),
                    (env_of 3 200 201, Call_update (str_uuid (version4 1)) (only_quantity 5))]"]
    by blast
qed

text \<open>
  C8 as stated fails. \<open>datetime.utcnow\<close> reads the wall clock, which can be set back:
  a product created at 100 and updated when the clock reads 50 is stored with
  \<open>created_at\<close> 100 and \<open>updated_at\<close> 50.
\<close>

theorem clock_set_back:
  "table (run [(env_of 1 100 100, Call_create widget),
               (env_of 3 50 50, Call_update (str_uuid (version4 1)) (only_quantity 5))]) =
     [\<lparr>name = ''Widget'', quantity = 5, price = 999, status = True,
       id' = ''00000000-0000-4000-8000-000000000001'',
       created_at = 100, updated_at = 50\<rparr>] \<and>
   \<not> list_all (\<lambda>p. created_at p \<le> updated_at p)
     (table (run [(env_of 1 100 100, Call_create widget),
                  (env_of 3 50 50, Call_update (str_uuid (version4 1)) (only_quantity 5))]))"
proof -
  let ?s = "\<lparr>table = [\<lparr>name = ''Widget'', quantity = 10, price = 999, status = True,
                 id' = ''00000000-0000-4000-8000-000000000001'',
                 created_at = 100, updated_at = 100\<rparr>],
             pending = []\<rparr>"
  have a: "close (snd (create (env_of 1 100 100) init widget)) = ?s"
    by (simp add: init_def close_def create_ok fits_def insert_row_def env_of_def uuid4_def
        widget_def id_Suc_0)
  have b: "table (close (snd (update (env_of 3 50 50) ?s (str_uuid (version4 1))
                                (only_quantity 5)))) =
     [\<lparr>name = ''Widget'', quantity = 5, price = 999, status = True,
       id' = ''00000000-0000-4000-8000-000000000001'',
       created_at = 100, updated_at = 50\<rparr>]"
    by (simp add: table_close update_def foldl_setattr patched_def modified_def commit_def
        refresh_def session_get_def from_orm_def unchanged_def update_row_def bind_changed_def
        bind_def only_quantity_def env_of_def id_Suc_0 Let_def)
  have "table (run [(env_of 1 100 100, Call_create widget),
               (env_of 3 50 50, Call_update (str_uuid (version4 1)) (only_quantity 5))]) =
     [\<lparr>name = ''Widget'', quantity = 5, price = 999, status = True,
       id' = ''00000000-0000-4000-8000-000000000001'',
       created_at = 100, updated_at = 50\<rparr>]"
    unfolding run_def by (simp only: foldl.simps step.simps a b)
  then show ?thesis by simp
qed


text \<open>
  C10: the code does not do what the claim says. An empty name filter adds no
  condition, but the call does not return the products that the other filter selects:
  with a category filter that is not empty, \<open>query\<close> evaluates \<open>Product.category\<close> and
  raises \<open>AttributeError\<close>, the defect of C4. With an empty category filter, or none,
  \<open>query\<close> does return the products that the name filter selects.
\<close>

theorem empty_name_with_category_raises:
  "query (env_of 3 200 200) one_widget (Some []) (Some ''tools'') =
     Inl (AttributeError (''type object 'Product' has no attribute 'category'' @ [CHR 0x27])) \<and>
   query (env_of 3 200 200) one_widget (Some []) (Some []) = Inr (table one_widget) \<and>
   query (env_of 3 200 200) one_widget (Some []) None = Inr (table one_widget)"
  by (simp add: query_def Product_category_def execute_def map_from_orm)

end
